theory Spec2Isabelle
  imports Main "HOL-Library.Log_Nat"
begin

section \<open>svg-to-avif: a shallow embedding of \<open>src/index.js\<close>\<close>

text \<open>
  The source file holds two revisions of the program, one after the other. The first
  (lines 1--177) filters candidates by a size threshold and compares the sizes of the
  artifact and of the original before it rewrites references; the second (lines 178--335)
  filters candidates by the presence of an \<open><image\<close> element and has no size comparison.
  \<open>updateReferences\<close> is the same text in both. Definitions of the second revision carry
  the suffix \<open>_B\<close>.

  Strings are lists of 8-bit characters: file contents and file names are taken to be ASCII
  text, where the bytes of a file, the UTF-16 code units of the decoded JavaScript string and
  the characters of the model coincide, and the size of a file is the length of its content.
\<close>

subsection \<open>JavaScript string operations used by the program\<close>

definition startsWith :: "string \<Rightarrow> string \<Rightarrow> bool" where
  \<comment> \<open>\<open>s.startsWith(pat)\<close>\<close>
  "startsWith s pat = (take (length pat) s = pat)"

fun String_includes :: "string \<Rightarrow> string \<Rightarrow> bool" where
  \<comment> \<open>\<open>s.includes(pat)\<close>: \<open>pat\<close> occurs in \<open>s\<close> as a literal substring\<close>
  "String_includes [] pat = (pat = [])"
| "String_includes (c # cs) pat = (startsWith (c # cs) pat \<or> String_includes cs pat)"

fun String_replace :: "string \<Rightarrow> string \<Rightarrow> string \<Rightarrow> string" where
  \<comment> \<open>\<open>s.replace(pat, rep)\<close> with a string pattern: the first occurrence of \<open>pat\<close> (the one
      \<open>indexOf\<close> finds) is replaced, the rest of \<open>s\<close> is kept. The program only calls it with
      \<open>rep = ".avif"\<close>, which holds no \<open>$\<close> replacement pattern.\<close>
  "String_replace pat rep [] = (if pat = [] then rep else [])"
| "String_replace pat rep (c # cs) =
     (if startsWith (c # cs) pat then rep @ drop (length pat) (c # cs)
      else c # String_replace pat rep cs)"

definition toAvifName :: "string \<Rightarrow> string" where
  \<comment> \<open>lines 53 and 112 (230 and 276): \<open>name.replace(".svg", ".avif")\<close>\<close>
  "toAvifName name = String_replace ''.svg'' ''.avif'' name"

definition path_join :: "string \<Rightarrow> string \<Rightarrow> string" where
  \<comment> \<open>\<open>path.join(dir, name)\<close> where normalisation has nothing to rewrite: \<open>dir\<close> is a
      normalised absolute directory other than the root \<open>/\<close>, and \<open>name\<close> a relative path
      as the glob returns it\<close>
  "path_join dir name = dir @ ''/'' @ name"

subsection \<open>The outcome gate (first revision, lines 97--110)\<close>

datatype decision = KeepArtifact | KeepOriginal

definition outcomeGate :: "nat \<Rightarrow> nat \<Rightarrow> decision" where
  \<comment> \<open>\<open>if (avifStats.size >= svgStats.size) { ... keep the SVG ... return; }\<close>; the first
      argument is the artifact's size, the second the original's\<close>
  "outcomeGate avifSize svgSize = (if avifSize \<ge> svgSize then KeepOriginal else KeepArtifact)"

subsection \<open>Regular expressions: \<open>new RegExp(originalName, "g")\<close> (line 35)\<close>

text \<open>
  \<open>updateReferences\<close> hands the file name to the \<open>RegExp\<close> constructor as a pattern. The
  model covers the pattern syntax a file name is likely to hit: pattern characters, \<open>.\<close>,
  \<open>^\<close>, capturing groups, \<open>|\<close> and the quantifiers \<open>*\<close>, \<open>+\<close>, \<open>?\<close> with their lazy forms.
  A pattern that uses \<open>$\<close>, a backslash, \<open>[\<close>, \<open>{\<close> or a \<open>(?\<close> group is reported as
  \<open>Unmodelled\<close>: the parser does not say what it matches, and \<open>replaceGlobal\<close> below
  takes the engine's result for it as a parameter. A pattern the constructor rejects is a
  \<open>SyntaxErr\<close>.
\<close>

datatype regex =
    Chr char            \<comment> \<open>a pattern character, matching itself\<close>
  | Dot                 \<comment> \<open>\<open>.\<close>: any character but a line terminator\<close>
  | Bol                 \<comment> \<open>\<open>^\<close> without the multiline flag: the start of the input\<close>
  | Empty               \<comment> \<open>the empty alternative\<close>
  | Seq regex regex
  | Alt regex regex
  | Star bool regex     \<comment> \<open>\<open>r*\<close> when the flag is set (greedy), \<open>r*?\<close> otherwise\<close>
  | Opt bool regex      \<comment> \<open>\<open>r?\<close> and \<open>r??\<close>\<close>
  | Group regex         \<comment> \<open>\<open>(r)\<close>\<close>

definition isLineTerminator :: "char \<Rightarrow> bool" where
  \<comment> \<open>line feed and carriage return; the two others, U+2028 and U+2029, are not ASCII\<close>
  "isLineTerminator c = (c = CHR 0x0A \<or> c = CHR 0x0D)"

text \<open>
  \<open>matches r atStart s\<close> lists what is left of \<open>s\<close> after each way \<open>r\<close> can match a prefix
  of it, in the order in which the backtracking matcher of the language tries them: the head
  of the list is the match the engine reports. An iteration of a quantifier that consumes
  nothing is rejected, as the language's RepeatMatcher does.
\<close>

fun matches :: "regex \<Rightarrow> bool \<Rightarrow> string \<Rightarrow> string list" where
  "matches (Chr c) b s = (case s of [] \<Rightarrow> [] | x # xs \<Rightarrow> if x = c then [xs] else [])"
| "matches Dot b s = (case s of [] \<Rightarrow> [] | x # xs \<Rightarrow> if isLineTerminator x then [] else [xs])"
| "matches Bol b s = (if b then [s] else [])"
| "matches Empty b s = [s]"
| "matches (Seq r1 r2) b s =
     concat (map (\<lambda>s1. matches r2 (b \<and> length s1 = length s) s1) (matches r1 b s))"
| "matches (Alt r1 r2) b s = matches r1 b s @ matches r2 b s"
| "matches (Star greedy r) b s =
     (let more = concat (map (\<lambda>s1. if length s1 < length s
                                      then matches (Star greedy r) False s1 else [])
                             (matches r b s))
      in if greedy then more @ [s] else s # more)"
| "matches (Opt greedy r) b s =
     (let once = filter (\<lambda>s1. length s1 \<noteq> length s) (matches r b s)
      in if greedy then once @ [s] else s # once)"
| "matches (Group r) b s = matches r b s"

datatype 'a parsed = Parsed 'a | SyntaxErr | Unmodelled

datatype quantifier = NoQuantifier | Quantified char bool | NotQuantifiable

type_synonym item = "regex \<times> quantifier"

text \<open>A frame of the parser: the alternatives closed so far and the terms of the current
  one, both latest first.\<close>

type_synonym frame = "regex list \<times> item list"

fun term_of :: "item \<Rightarrow> regex" where
  "term_of (r, Quantified q greedy) =
     (if q = CHR ''*'' then Star greedy r
      else if q = CHR ''+'' then Seq r (Star greedy r)
      else Opt greedy r)"
| "term_of (r, _) = r"

fun seq_of :: "regex list \<Rightarrow> regex" where
  "seq_of [] = Empty"
| "seq_of [r] = r"
| "seq_of (r # rs) = Seq r (seq_of rs)"

fun alt_of :: "regex list \<Rightarrow> regex" where
  "alt_of [] = Empty"
| "alt_of [r] = r"
| "alt_of (r # rs) = Alt r (alt_of rs)"

definition close_alt :: "frame \<Rightarrow> regex list" where
  "close_alt f = seq_of (rev (map term_of (snd f))) # fst f"

definition disjunction :: "frame \<Rightarrow> regex" where
  "disjunction f = alt_of (rev (close_alt f))"

definition push_atom :: "regex \<Rightarrow> quantifier \<Rightarrow> frame list \<Rightarrow> frame list" where
  "push_atom r q st = (case st of [] \<Rightarrow> [] | (alts, cur) # up \<Rightarrow> (alts, (r, q) # cur) # up)"

fun parse_loop :: "string \<Rightarrow> frame list \<Rightarrow> regex parsed" where
  "parse_loop [] st = (case st of [f] \<Rightarrow> Parsed (disjunction f) | _ \<Rightarrow> SyntaxErr)"
| "parse_loop (c # cs) st =
     (case st of
        [] \<Rightarrow> SyntaxErr
      | (alts, cur) # up \<Rightarrow>
          if c = CHR ''('' then parse_loop cs (([], []) # st)
          else if c = CHR '')'' then
            (case up of
               [] \<Rightarrow> SyntaxErr
             | _ \<Rightarrow> parse_loop cs (push_atom (Group (disjunction (alts, cur))) NoQuantifier up))
          else if c = CHR ''|'' then parse_loop cs ((close_alt (alts, cur), []) # up)
          else if c = CHR ''*'' \<or> c = CHR ''+'' \<or> c = CHR ''?'' then
            (case cur of
               [] \<Rightarrow> if c = CHR ''?'' \<and> alts = [] \<and> up \<noteq> [] then Unmodelled else SyntaxErr
             | (r, NoQuantifier) # rest \<Rightarrow>
                 parse_loop cs ((alts, (r, Quantified c True) # rest) # up)
             | (r, Quantified q greedy) # rest \<Rightarrow>
                 if c = CHR ''?'' \<and> greedy
                 then parse_loop cs ((alts, (r, Quantified q False) # rest) # up)
                 else SyntaxErr
             | (r, NotQuantifiable) # rest \<Rightarrow> SyntaxErr)
          else if c = CHR ''.'' then parse_loop cs (push_atom Dot NoQuantifier st)
          else if c = CHR ''^'' then parse_loop cs (push_atom Bol NotQuantifiable st)
          else if c = CHR ''$'' \<or> c = CHR 0x5C \<or> c = CHR ''['' \<or> c = CHR ''{''
          then Unmodelled
          else parse_loop cs (push_atom (Chr c) NoQuantifier st))"

definition parse_pattern :: "string \<Rightarrow> regex parsed" where
  "parse_pattern p = parse_loop p [([], [])]"

text \<open>
  \<open>content.replace(regex, rep)\<close> with the global flag: from each position the engine looks
  for the next match, puts \<open>rep\<close> in its place and goes on behind it; after an empty match
  it steps over one character, which is copied.
\<close>

function replace_from :: "regex \<Rightarrow> string \<Rightarrow> bool \<Rightarrow> string \<Rightarrow> string" where
  "replace_from r rep b s =
     (case matches r b s of
        [] \<Rightarrow> (case s of [] \<Rightarrow> [] | c # cs \<Rightarrow> c # replace_from r rep False cs)
      | s1 # _ \<Rightarrow>
          if length s1 < length s then rep @ replace_from r rep False s1
          else rep @ (case s of [] \<Rightarrow> [] | c # cs \<Rightarrow> c # replace_from r rep False cs))"
  by pat_completeness auto
termination
  by (relation "measure (\<lambda>(r, rep, b, s). length s)") auto

datatype error =
    ENOENT | EACCES | EPERM | EBUSY | SyntaxError | SessionError | GlobError | CloseError

definition RegExp_replace :: "string \<Rightarrow> string \<Rightarrow> string \<Rightarrow> (error + string) option" where
  \<comment> \<open>\<open>content.replace(new RegExp(pattern, "g"), rep)\<close> inside the modelled fragment;
      \<open>None\<close> outside it, which for the replacement text means a \<open>$\<close> (it starts a
      replacement pattern such as \<open>$&\<close>)\<close>
  "RegExp_replace pattern rep content =
     (case parse_pattern pattern of
        Unmodelled \<Rightarrow> None
      | SyntaxErr \<Rightarrow> Some (Inl SyntaxError)
      | Parsed r \<Rightarrow>
          if CHR ''$'' \<in> set rep then None
          else Some (Inr (replace_from r rep True content)))"

text \<open>
  Outside the modelled fragment the program runs on with whatever the engine computes. That
  result is a parameter of the model, so that what is proved of \<open>updateReferences\<close> and of
  \<open>convert\<close> holds for every file name, whatever the engine does there.
\<close>

type_synonym engine = "string \<Rightarrow> string \<Rightarrow> string \<Rightarrow> error + string"

definition replaceGlobal :: "engine \<Rightarrow> string \<Rightarrow> string \<Rightarrow> string \<Rightarrow> error + string" where
  \<comment> \<open>\<open>content.replace(new RegExp(pattern, "g"), rep)\<close> for every pattern and replacement:
      \<open>Inl\<close> is what the constructor throws\<close>
  "replaceGlobal other pattern rep content =
     (case RegExp_replace pattern rep content of
        Some result \<Rightarrow> result
      | None \<Rightarrow> other pattern rep content)"

subsection \<open>The file system and the console\<close>

record file_entry =
  data :: string
  readable :: bool
  writable :: bool

type_synonym filesystem = "string \<rightharpoonup> file_entry"

definition stat :: "string \<Rightarrow> filesystem \<Rightarrow> error + nat" where
  \<comment> \<open>\<open>(await fs.stat(p)).size\<close>\<close>
  "stat p fs = (case fs p of None \<Rightarrow> Inl ENOENT | Some f \<Rightarrow> Inr (length (data f)))"

definition readFile :: "string \<Rightarrow> filesystem \<Rightarrow> error + string" where
  "readFile p fs =
     (case fs p of
        None \<Rightarrow> Inl ENOENT
      | Some f \<Rightarrow> if readable f then Inr (data f) else Inl EACCES)"

definition writeFile :: "string \<Rightarrow> string \<Rightarrow> filesystem \<Rightarrow> error + filesystem" where
  \<comment> \<open>also \<open>download.saveAs(p)\<close>: the file is created or its content replaced\<close>
  "writeFile p s fs =
     (case fs p of
        None \<Rightarrow> Inr (fs(p \<mapsto> \<lparr>data = s, readable = True, writable = True\<rparr>))
      | Some f \<Rightarrow> if writable f then Inr (fs(p \<mapsto> f\<lparr>data := s\<rparr>)) else Inl EACCES)"

definition unlink :: "(string \<Rightarrow> error option) \<Rightarrow> string \<Rightarrow> filesystem \<Rightarrow> error + filesystem" where
  \<comment> \<open>\<open>fs.unlink(p)\<close> rejects with ENOENT when there is no such file. The operating system
      can also refuse to unlink a file that exists (EPERM, EACCES, EBUSY: a directory that
      is not writable, a file that is read-only or in use); \<open>denied p\<close> is the error it
      answers with, \<open>None\<close> when it lets the unlink happen.\<close>
  "unlink denied p fs =
     (case fs p of
        None \<Rightarrow> Inl ENOENT
      | Some f \<Rightarrow> (case denied p of Some e \<Rightarrow> Inl e | None \<Rightarrow> Inr (fs(p := None))))"

record world =
  files :: filesystem
  browsers :: nat     \<comment> \<open>browser processes that are open\<close>
  contexts :: nat     \<comment> \<open>browser contexts that are open\<close>
  errors :: "(string \<times> error) list"   \<comment> \<open>what line 41 wrote with \<open>console.error\<close>\<close>

subsection \<open>\<open>updateReferences\<close> (lines 19--44)\<close>

definition logError :: "string \<Rightarrow> error \<Rightarrow> world \<Rightarrow> world" where
  \<comment> \<open>line 41, the \<open>catch\<close> of the loop body\<close>
  "logError file e w = w\<lparr>errors := errors w @ [(file, e)]\<rparr>"

definition updateFile :: "engine \<Rightarrow> string \<Rightarrow> string \<Rightarrow> string \<Rightarrow> string \<Rightarrow> world \<Rightarrow> world" where
  \<comment> \<open>the body of the loop, lines 29--42: whatever the \<open>try\<close> block raises is caught and
      logged\<close>
  "updateFile other currentDir originalName newName file w =
     (let filePath = path_join currentDir file in
      case readFile filePath (files w) of
        Inl e \<Rightarrow> logError file e w
      | Inr content \<Rightarrow>
          if String_includes content originalName then
            (case replaceGlobal other originalName newName content of
               Inl e \<Rightarrow> logError file e w
             | Inr updatedContent \<Rightarrow>
                 (case writeFile filePath updatedContent (files w) of
                    Inl e \<Rightarrow> logError file e w
                  | Inr fs' \<Rightarrow> w\<lparr>files := fs'\<rparr>))
          else w)"

fun updateFiles :: "engine \<Rightarrow> string \<Rightarrow> string \<Rightarrow> string \<Rightarrow> string list \<Rightarrow> world \<Rightarrow> world" where
  \<comment> \<open>the loop of line 28 over the files the glob found\<close>
  "updateFiles other currentDir originalName newName [] w = w"
| "updateFiles other currentDir originalName newName (file # rest) w =
     updateFiles other currentDir originalName newName rest
       (updateFile other currentDir originalName newName file w)"

definition updateReferences ::
  "engine \<Rightarrow> string list option \<Rightarrow> string \<Rightarrow> string \<Rightarrow> string \<Rightarrow> world \<Rightarrow> error option \<times> world"
where
  \<comment> \<open>The second argument is what the glob of line 23 resolves to, \<open>None\<close> when it rejects:
      that error is outside the \<open>try\<close> and leaves the function.\<close>
  "updateReferences other textFiles currentDir originalName newName w =
     (case textFiles of
        None \<Rightarrow> (Some GlobError, w)
      | Some fs \<Rightarrow> (None, updateFiles other currentDir originalName newName fs w))"

subsection \<open>Numbers: IEEE 754 binary64 with round to nearest, ties to even\<close>

text \<open>
  A JavaScript number is \<open>NaN\<close>, an infinity or a finite double, kept here as the rational
  it denotes; the sign of zero is not tracked (the program only prints the number). Each
  operation computes the exact result and rounds it with \<open>fl\<close>.
\<close>

datatype number = NaN | PosInfinity | NegInfinity | Finite rat

definition floor_log2 :: "rat \<Rightarrow> int" where
  \<comment> \<open>for \<open>a > 0\<close>: the \<open>e\<close> with \<open>2^e \<le> a < 2^(e+1)\<close>\<close>
  "floor_log2 a =
     (let (p, q) = quotient_of a; e = bitlen p - bitlen q
      in if 2 powi e \<le> a then e else e - 1)"

definition round_half_even :: "rat \<Rightarrow> int" where
  "round_half_even x =
     (let f = \<lfloor>x\<rfloor>; d = x - of_int f
      in if d < 1 / 2 then f else if 1 / 2 < d then f + 1 else if even f then f else f + 1)"

definition fl :: "rat \<Rightarrow> number" where
  \<comment> \<open>53 significant bits, exponents down to the subnormal \<open>2^-1074\<close>, overflow to infinity
      from \<open>2^1024\<close> on\<close>
  "fl x =
     (if x = 0 then Finite 0
      else
        let a = \<bar>x\<bar>;
            e = max (floor_log2 a - 52) (- 1074);
            m = round_half_even (a / 2 powi e);
            y = of_int m * 2 powi e
        in if 971 < e \<or> (e = 971 \<and> 2 ^ 53 \<le> m)
           then (if x < 0 then NegInfinity else PosInfinity)
           else Finite (if x < 0 then - y else y))"

fun fmul :: "number \<Rightarrow> number \<Rightarrow> number" where
  "fmul NaN _ = NaN"
| "fmul _ NaN = NaN"
| "fmul (Finite x) (Finite y) = fl (x * y)"
| "fmul (Finite x) PosInfinity =
     (if x = 0 then NaN else if x < 0 then NegInfinity else PosInfinity)"
| "fmul (Finite x) NegInfinity =
     (if x = 0 then NaN else if x < 0 then PosInfinity else NegInfinity)"
| "fmul PosInfinity (Finite y) =
     (if y = 0 then NaN else if y < 0 then NegInfinity else PosInfinity)"
| "fmul NegInfinity (Finite y) =
     (if y = 0 then NaN else if y < 0 then PosInfinity else NegInfinity)"
| "fmul PosInfinity PosInfinity = PosInfinity"
| "fmul PosInfinity NegInfinity = NegInfinity"
| "fmul NegInfinity PosInfinity = NegInfinity"
| "fmul NegInfinity NegInfinity = PosInfinity"

fun fadd :: "number \<Rightarrow> number \<Rightarrow> number" where
  "fadd NaN _ = NaN"
| "fadd _ NaN = NaN"
| "fadd (Finite x) (Finite y) = fl (x + y)"
| "fadd PosInfinity NegInfinity = NaN"
| "fadd NegInfinity PosInfinity = NaN"
| "fadd PosInfinity _ = PosInfinity"
| "fadd NegInfinity _ = NegInfinity"
| "fadd _ PosInfinity = PosInfinity"
| "fadd _ NegInfinity = NegInfinity"

fun Math_round :: "number \<Rightarrow> number" where
  \<comment> \<open>\<open>Math.round\<close>: the integer nearest to \<open>x\<close>, the larger one at a tie; it is exact\<close>
  "Math_round (Finite x) = Finite (of_int \<lfloor>x + 1 / 2\<rfloor>)"
| "Math_round n = n"

text \<open>\<open>Number(s)\<close> for a string: the StringNumericLiteral grammar, over ASCII.\<close>

definition isStrWhiteSpaceChar :: "char \<Rightarrow> bool" where
  "isStrWhiteSpaceChar c =
     (c = CHR 0x09 \<or> c = CHR 0x0A \<or> c = CHR 0x0B \<or> c = CHR 0x0C \<or> c = CHR 0x0D \<or> c = CHR '' '')"

definition trimString :: "string \<Rightarrow> string" where
  "trimString s = rev (dropWhile isStrWhiteSpaceChar (rev (dropWhile isStrWhiteSpaceChar s)))"

definition digitValue :: "char \<Rightarrow> nat option" where
  "digitValue c =
     (let n = (of_char c :: nat)
      in if 48 \<le> n \<and> n \<le> 57 then Some (n - 48)
         else if 97 \<le> n \<and> n \<le> 102 then Some (n - 87)
         else if 65 \<le> n \<and> n \<le> 70 then Some (n - 55)
         else None)"

definition isDigitOf :: "nat \<Rightarrow> char \<Rightarrow> bool" where
  "isDigitOf radix c = (case digitValue c of None \<Rightarrow> False | Some d \<Rightarrow> d < radix)"

definition digitsValue :: "nat \<Rightarrow> string \<Rightarrow> int" where
  "digitsValue radix ds =
     foldl (\<lambda>acc c. acc * int radix + (case digitValue c of None \<Rightarrow> 0 | Some d \<Rightarrow> int d)) 0 ds"

definition radixPrefix :: "string \<Rightarrow> (nat \<times> string) option" where
  \<comment> \<open>\<open>0x\<close>, \<open>0o\<close>, \<open>0b\<close> in either case\<close>
  "radixPrefix t =
     (case t of
        z # x # ds \<Rightarrow>
          if z \<noteq> CHR ''0'' then None
          else if x = CHR ''x'' \<or> x = CHR ''X'' then Some (16, ds)
          else if x = CHR ''o'' \<or> x = CHR ''O'' then Some (8, ds)
          else if x = CHR ''b'' \<or> x = CHR ''B'' then Some (2, ds)
          else None
      | _ \<Rightarrow> None)"

definition signedDigits :: "string \<Rightarrow> int option" where
  \<comment> \<open>an optional sign and at least one decimal digit, nothing else\<close>
  "signedDigits t =
     (let (neg, ds) = (case t of
                         [] \<Rightarrow> (False, [])
                       | c # r \<Rightarrow> if c = CHR ''-'' then (True, r)
                                  else if c = CHR ''+'' then (False, r) else (False, t))
      in if ds \<noteq> [] \<and> list_all (isDigitOf 10) ds
         then Some (if neg then - digitsValue 10 ds else digitsValue 10 ds)
         else None)"

definition exponentPart :: "string \<Rightarrow> int option" where
  "exponentPart t =
     (case t of
        [] \<Rightarrow> Some 0
      | c # r \<Rightarrow> if c = CHR ''e'' \<or> c = CHR ''E'' then signedDigits r else None)"

definition strDecimalLiteral :: "string \<Rightarrow> number" where
  "strDecimalLiteral t =
     (let (neg, u) = (case t of
                        [] \<Rightarrow> (False, [])
                      | c # r \<Rightarrow> if c = CHR ''-'' then (True, r)
                                 else if c = CHR ''+'' then (False, r) else (False, t))
      in if u = ''Infinity'' then (if neg then NegInfinity else PosInfinity)
         else
           let ip = takeWhile (isDigitOf 10) u;
               r1 = dropWhile (isDigitOf 10) u;
               (fp, r2) = (case r1 of
                             [] \<Rightarrow> ([], [])
                           | c # r \<Rightarrow> if c = CHR ''.''
                                      then (takeWhile (isDigitOf 10) r, dropWhile (isDigitOf 10) r)
                                      else ([], r1))
           in if ip = [] \<and> fp = [] then NaN
              else case exponentPart r2 of
                     None \<Rightarrow> NaN
                   | Some ex \<Rightarrow>
                       let mv = of_int (digitsValue 10 (ip @ fp)) * 10 powi (ex - int (length fp))
                       in fl (if neg then - mv else mv))"

definition Number :: "string \<Rightarrow> number" where
  "Number s =
     (let t = trimString s
      in if t = [] then Finite 0
         else case radixPrefix t of
                Some (radix, ds) \<Rightarrow>
                  if ds \<noteq> [] \<and> list_all (isDigitOf radix) ds
                  then fl (of_int (digitsValue radix ds)) else NaN
              | None \<Rightarrow> strDecimalLiteral t)"

subsection \<open>Candidate selection (the callback of \<open>main\<close>, lines 135--160 and 299--318)\<close>

record candidate =
  path :: string
  dir :: string
  name :: string
  content :: string
  width :: number

definition dirname :: "string \<Rightarrow> string" where
  \<comment> \<open>\<open>path.dirname\<close> of an absolute path below the root directory\<close>
  "dirname p = rev (drop 1 (dropWhile (\<lambda>c. c \<noteq> CHR ''/'') (rev p)))"

definition basename :: "string \<Rightarrow> string" where
  "basename p = rev (takeWhile (\<lambda>c. c \<noteq> CHR ''/'') (rev p))"

fun width_value :: "string \<Rightarrow> string option" where
  \<comment> \<open>the group \<open>(.*?)\<close> and the closing quote: the shortest run of characters that are not
      line terminators and that a double quote follows\<close>
  "width_value [] = None"
| "width_value (c # cs) =
     (if c = CHR 0x22 then Some []
      else if isLineTerminator c then None
      else map_option ((#) c) (width_value cs))"

definition svg_width_prefix :: string where
  "svg_width_prefix = ''<svg width='' @ [CHR 0x22]"

fun exec_svg_width :: "string \<Rightarrow> string option" where
  \<comment> \<open>\<open>/<svg width="(.*?)"/.exec(content)?.[1]\<close>: the group of the leftmost match;
      \<open>None\<close> is \<open>undefined\<close>\<close>
  "exec_svg_width [] = None"
| "exec_svg_width (c # cs) =
     (case (if startsWith (c # cs) svg_width_prefix
            then width_value (drop (length svg_width_prefix) (c # cs)) else None) of
        Some w \<Rightarrow> Some w
      | None \<Rightarrow> exec_svg_width cs)"

definition targetWidth :: "string \<Rightarrow> number" where
  \<comment> \<open>lines 158 and 316: \<open>Math.round(3.12476 * Number(width) + 0.196661)\<close>\<close>
  "targetWidth w =
     Math_round (fadd (fmul (fl (312476 / 100000)) (Number w)) (fl (196661 / 1000000)))"

definition analyze :: "string \<Rightarrow> filesystem \<Rightarrow> string \<Rightarrow> error + candidate option" where
  \<comment> \<open>first revision, lines 135--160; \<open>Inr None\<close> is the \<open>null\<close> that \<open>filter(Boolean)\<close>
      drops, \<open>Inl\<close> a rejected promise\<close>
  "analyze currentDir fs file =
     (let filePath = path_join currentDir file in
      case stat filePath fs of
        Inl e \<Rightarrow> Inl e
      | Inr sz \<Rightarrow>
          (case readFile filePath fs of
             Inl e \<Rightarrow> Inl e
           | Inr text \<Rightarrow>
               if sz < 10 * 1024 then Inr None
               else
                 (case exec_svg_width text of
                    None \<Rightarrow> Inr None
                  | Some w \<Rightarrow>
                      if w = [] then Inr None
                      else Inr (Some \<lparr>path = filePath, dir = dirname filePath,
                                      name = basename file, content = text,
                                      width = targetWidth w\<rparr>))))"

definition analyze_B :: "string \<Rightarrow> filesystem \<Rightarrow> string \<Rightarrow> error + candidate option" where
  \<comment> \<open>second revision, lines 299--318\<close>
  "analyze_B currentDir fs file =
     (let filePath = path_join currentDir file in
      case readFile filePath fs of
        Inl e \<Rightarrow> Inl e
      | Inr text \<Rightarrow>
          (let image = String_includes text ''<image'' in
           case exec_svg_width text of
             None \<Rightarrow> Inr None
           | Some w \<Rightarrow>
               if w = [] \<or> \<not> image then Inr None
               else Inr (Some \<lparr>path = filePath, dir = dirname filePath,
                                name = basename file, content = text,
                                width = targetWidth w\<rparr>)))"

subsection \<open>\<open>convert\<close> (lines 46--122 and 223--286)\<close>

text \<open>
  What the world outside the program does during one call of \<open>convert\<close>: whether the
  browser starts, what the two web tools send back for an upload (\<open>None\<close> when a step of
  the scripted interaction raises, a timeout included), what the glob of
  \<open>updateReferences\<close> finds, whether closing succeeds, which unlinks the operating system
  refuses, and what the engine does with a pattern outside the modelled fragment.
\<close>

record remote =
  launch :: bool                                    \<comment> \<open>line 48 resolves\<close>
  newContext :: bool                                \<comment> \<open>line 49\<close>
  newPage :: bool                                   \<comment> \<open>line 50\<close>
  pixelied :: "string \<Rightarrow> number \<Rightarrow> string option"    \<comment> \<open>lines 55--76: the converted file\<close>
  cloudinary :: "string \<Rightarrow> string option"           \<comment> \<open>lines 80--94: the compressed file\<close>
  textFiles :: "string list option"                 \<comment> \<open>line 23\<close>
  contextClose :: bool                              \<comment> \<open>\<open>context.close()\<close> resolves\<close>
  browserClose :: bool                              \<comment> \<open>\<open>browser.close()\<close> resolves\<close>
  unlinkDenied :: "string \<Rightarrow> error option"         \<comment> \<open>lines 103 and 121, see \<open>unlink\<close>\<close>
  otherPatterns :: engine                           \<comment> \<open>line 35, see \<open>replaceGlobal\<close>\<close>

definition avifPath :: "candidate \<Rightarrow> string" where
  \<comment> \<open>line 53\<close>
  "avifPath file = path_join (dir file) (toAvifName (name file))"

definition openSession :: "remote \<Rightarrow> world \<Rightarrow> error option \<times> world" where
  \<comment> \<open>lines 48--50\<close>
  "openSession rm w =
     (if \<not> launch rm then (Some SessionError, w)
      else
        let w1 = w\<lparr>browsers := Suc (browsers w)\<rparr>
        in if \<not> newContext rm then (Some SessionError, w1)
           else
             let w2 = w1\<lparr>contexts := Suc (contexts w1)\<rparr>
             in if \<not> newPage rm then (Some SessionError, w2) else (None, w2))"

definition produceArtifact :: "remote \<Rightarrow> candidate \<Rightarrow> filesystem \<Rightarrow> error option \<times> filesystem" where
  \<comment> \<open>lines 55--95: upload the original, save the download at \<open>avifPath\<close>, upload that file,
      save the second download over it\<close>
  "produceArtifact rm file fs =
     (case readFile (path file) fs of
        Inl e \<Rightarrow> (Some e, fs)
      | Inr svg \<Rightarrow>
          (case pixelied rm svg (width file) of
             None \<Rightarrow> (Some SessionError, fs)
           | Some avif \<Rightarrow>
               (case writeFile (avifPath file) avif fs of
                  Inl e \<Rightarrow> (Some e, fs)
                | Inr fs1 \<Rightarrow>
                    (case readFile (avifPath file) fs1 of
                       Inl e \<Rightarrow> (Some e, fs1)
                     | Inr uploaded \<Rightarrow>
                         (case cloudinary rm uploaded of
                            None \<Rightarrow> (Some SessionError, fs1)
                          | Some compressed \<Rightarrow>
                              (case writeFile (avifPath file) compressed fs1 of
                                 Inl e \<Rightarrow> (Some e, fs1)
                               | Inr fs2 \<Rightarrow> (None, fs2)))))))"

definition closeSession :: "remote \<Rightarrow> world \<Rightarrow> error option \<times> world" where
  \<comment> \<open>\<open>await context.close(); await browser.close();\<close> (lines 104--105 and 116--117)\<close>
  "closeSession rm w =
     (if \<not> contextClose rm then (Some CloseError, w)
      else
        let w1 = w\<lparr>contexts := contexts w - 1\<rparr>
        in if \<not> browserClose rm then (Some CloseError, w1)
           else (None, w1\<lparr>browsers := browsers w1 - 1\<rparr>))"

definition replaceOriginal ::
  "remote \<Rightarrow> string \<Rightarrow> candidate \<Rightarrow> world \<Rightarrow> error option \<times> world" where
  \<comment> \<open>lines 111--121 (275--285): rewrite the references, close, delete the original\<close>
  "replaceOriginal rm currentDir file w =
     (case updateReferences (otherPatterns rm) (textFiles rm) currentDir
             (name file) (toAvifName (name file)) w of
        (Some e, w1) \<Rightarrow> (Some e, w1)
      | (None, w1) \<Rightarrow>
          (case closeSession rm w1 of
             (Some e, w2) \<Rightarrow> (Some e, w2)
           | (None, w2) \<Rightarrow>
               (case unlink (unlinkDenied rm) (path file) (files w2) of
                  Inl e \<Rightarrow> (Some e, w2)
                | Inr fs' \<Rightarrow> (None, w2\<lparr>files := fs'\<rparr>))))"

definition convert ::
  "remote \<Rightarrow> string \<Rightarrow> candidate \<Rightarrow> world \<Rightarrow> error option \<times> world" where
  \<comment> \<open>First revision. The result holds the error that left the function, if any, and the
      world it leaves.\<close>
  "convert rm currentDir file w =
     (case openSession rm w of
        (Some e, w1) \<Rightarrow> (Some e, w1)
      | (None, w1) \<Rightarrow>
          (case produceArtifact rm file (files w1) of
             (Some e, fs2) \<Rightarrow> (Some e, w1\<lparr>files := fs2\<rparr>)
           | (None, fs2) \<Rightarrow>
               (let w2 = w1\<lparr>files := fs2\<rparr> in
                case stat (avifPath file) fs2 of
                  Inl e \<Rightarrow> (Some e, w2)
                | Inr avifSize \<Rightarrow>
                    (case stat (path file) fs2 of
                       Inl e \<Rightarrow> (Some e, w2)
                     | Inr svgSize \<Rightarrow>
                         (case outcomeGate avifSize svgSize of
                            KeepOriginal \<Rightarrow>
                              (case unlink (unlinkDenied rm) (avifPath file) fs2 of
                                 Inl e \<Rightarrow> (Some e, w2)
                               | Inr fs3 \<Rightarrow> closeSession rm (w2\<lparr>files := fs3\<rparr>))
                          | KeepArtifact \<Rightarrow> replaceOriginal rm currentDir file w2)))))"

definition convert_B ::
  "remote \<Rightarrow> string \<Rightarrow> candidate \<Rightarrow> world \<Rightarrow> error option \<times> world" where
  \<comment> \<open>Second revision: no size comparison between line 272 and line 274.\<close>
  "convert_B rm currentDir file w =
     (case openSession rm w of
        (Some e, w1) \<Rightarrow> (Some e, w1)
      | (None, w1) \<Rightarrow>
          (case produceArtifact rm file (files w1) of
             (Some e, fs2) \<Rightarrow> (Some e, w1\<lparr>files := fs2\<rparr>)
           | (None, fs2) \<Rightarrow> replaceOriginal rm currentDir file (w1\<lparr>files := fs2\<rparr>)))"

definition gateDecision :: "remote \<Rightarrow> candidate \<Rightarrow> world \<Rightarrow> decision option" where
  \<comment> \<open>the decision the comparison of line 101 takes in a run of \<open>convert\<close>; \<open>None\<close> when the
      run raises before it gets there\<close>
  "gateDecision rm file w =
     (case openSession rm w of
        (Some e, w1) \<Rightarrow> None
      | (None, w1) \<Rightarrow>
          (case produceArtifact rm file (files w1) of
             (Some e, fs2) \<Rightarrow> None
           | (None, fs2) \<Rightarrow>
               (case stat (avifPath file) fs2 of
                  Inl e \<Rightarrow> None
                | Inr avifSize \<Rightarrow>
                    (case stat (path file) fs2 of
                       Inl e \<Rightarrow> None
                     | Inr svgSize \<Rightarrow> Some (outcomeGate avifSize svgSize)))))"

subsection \<open>Example inputs\<close>

definition docs :: world where
  \<comment> \<open>a project with two Markdown files that mention icons, one that cannot be read and
      one that cannot be written\<close>
  "docs =
     \<lparr>files = [''/proj/README.md'' \<mapsto>
                 \<lparr>data = ''![logo](icon.svg) from the icon-svg-sprite'',
                  readable = True, writable = True\<rparr>,
               ''/proj/docs/a.md'' \<mapsto>
                 \<lparr>data = ''[x](icon (1).svg) and icon 1.svg'',
                  readable = True, writable = True\<rparr>,
               ''/proj/locked.md'' \<mapsto>
                 \<lparr>data = ''icon.svg'', readable = False, writable = True\<rparr>,
               ''/proj/frozen.md'' \<mapsto>
                 \<lparr>data = ''see icon.svg'', readable = True, writable = False\<rparr>],
      browsers = 0, contexts = 0, errors = []\<rparr>"

definition svg_open :: "string \<Rightarrow> string" where
  \<comment> \<open>the opening tag \<open><svg width="w">\<close>\<close>
  "svg_open w = ''<svg width='' @ [CHR 0x22] @ w @ [CHR 0x22] @ ''>''"

definition icons :: filesystem where
  \<comment> \<open>a file of 30 bytes with an embedded image, and two files above 10 KiB, one with a
      width in pixels and one with a width in per cent\<close>
  "icons =
     [''/proj/small.svg'' \<mapsto>
        \<lparr>data = svg_open ''24'' @ ''<image/></svg>'', readable = True, writable = True\<rparr>,
      ''/proj/logo.svg'' \<mapsto>
        \<lparr>data = svg_open ''100'' @ ''<image/>'' @ replicate 10240 (CHR '' '') @ ''</svg>'',
         readable = True, writable = True\<rparr>,
      ''/proj/wide.svg'' \<mapsto>
        \<lparr>data = svg_open ''100%'' @ ''<image/>'' @ replicate 10240 (CHR '' '') @ ''</svg>'',
         readable = True, writable = True\<rparr>]"

definition logo :: candidate where
  \<comment> \<open>a candidate of 31 bytes, as the selection would build it\<close>
  "logo = \<lparr>path = ''/proj/logo.svg'', dir = ''/proj'', name = ''logo.svg'',
           content = svg_open ''100'' @ ''<image/></svg>'', width = Finite 313\<rparr>"

definition project :: world where
  "project =
     \<lparr>files = [''/proj/logo.svg'' \<mapsto>
                 \<lparr>data = svg_open ''100'' @ ''<image/></svg>'', readable = True, writable = True\<rparr>,
               ''/proj/index.html'' \<mapsto>
                 \<lparr>data = ''<img src=logo.svg>'', readable = True, writable = True\<rparr>],
      browsers = 0, contexts = 0, errors = []\<rparr>"

definition rejecting :: engine where
  \<comment> \<open>an engine that rejects every pattern outside the modelled fragment\<close>
  "rejecting pattern rep body = Inl SyntaxError"

definition busy :: "string \<Rightarrow> string \<Rightarrow> error option" where
  \<comment> \<open>the operating system refuses to unlink the file \<open>locked\<close>, which is in use, and
      no other\<close>
  "busy locked p = (if p = locked then Some EBUSY else None)"

definition tools :: "string \<Rightarrow> remote" where
  \<comment> \<open>both web tools answer, the second one sends back \<open>compressed\<close>, and no unlink is
      refused\<close>
  "tools compressed =
     \<lparr>launch = True, newContext = True, newPage = True,
      pixelied = (\<lambda>svg w. Some (replicate 64 (CHR ''a''))),
      cloudinary = (\<lambda>avif. Some compressed),
      textFiles = Some [''index.html''],
      contextClose = True, browserClose = True,
      unlinkDenied = (\<lambda>p. None),
      otherPatterns = rejecting\<rparr>"

definition summary ::
  "error option \<times> world \<Rightarrow> error option \<times> string option list \<times> nat \<times> nat" where
  \<comment> \<open>of a run: the error, the contents of the original, the artifact and the page that
      refers to the original, and the numbers of open browsers and contexts\<close>
  "summary run =
     (case run of
        (r, w) \<Rightarrow> (r, map (\<lambda>p. map_option data (files w p))
                        [''/proj/logo.svg'', ''/proj/logo.avif'', ''/proj/index.html''],
                   browsers w, contexts w))"

section \<open>Properties\<close>

subsection \<open>String helpers\<close>

lemma startsWith_append [simp]: "startsWith (pat @ s) pat"
  by (simp add: startsWith_def)

lemma String_replace_first:
  "\<not> String_includes (pre @ butlast pat) pat \<Longrightarrow> pat \<noteq> [] \<Longrightarrow>
   String_replace pat rep (pre @ pat @ post) = pre @ rep @ post"
proof (induction pre)
  case Nil
  then show ?case by (cases pat) (simp_all add: startsWith_def)
next
  case (Cons c pre)
  from Cons.prems have no: "\<not> startsWith (c # pre @ butlast pat) pat"
    and rest: "\<not> String_includes (pre @ butlast pat) pat" by simp_all
  have len: "length pat \<le> length (c # pre @ butlast pat)"
    using Cons.prems(2) by (cases pat rule: rev_cases) simp_all
  have eq: "c # pre @ pat @ post = (c # pre @ butlast pat) @ (last pat # post)"
    using Cons.prems(2) by (cases pat rule: rev_cases) simp_all
  have "take (length pat) ((c # pre @ butlast pat) @ (last pat # post))
        = take (length pat) (c # pre @ butlast pat)"
    using len by (simp only: take_append diff_is_0_eq' take_0 append_Nil2)
  then have "take (length pat) (c # pre @ pat @ post) = take (length pat) (c # pre @ butlast pat)"
    by (simp only: eq)
  with no have "\<not> startsWith (c # pre @ pat @ post) pat"
    by (simp add: startsWith_def)
  then show ?case using Cons.IH [OF rest Cons.prems(2)] by simp
qed

lemma String_replace_absent: "\<not> String_includes s pat \<Longrightarrow> String_replace pat rep s = s"
  by (induction s) (auto split: if_splits)

subsection \<open>C2: the gate keeps the artifact exactly when it is strictly smaller\<close>

text \<open>
  C2. For every artifact size \<open>A\<close> and source size \<open>S\<close> the gate decides \<open>KeepArtifact\<close>
  if and only if \<open>A < S\<close>, and \<open>KeepOriginal\<close> otherwise; a tie \<open>A = S\<close> keeps the
  original, and the two literal pairs of the specification come out as stated.
\<close>

theorem outcomeGate_strict:
  "(outcomeGate A S = KeepArtifact) = (A < S)
   \<and> (outcomeGate A S = KeepOriginal) = (\<not> A < S)
   \<and> outcomeGate S S = KeepOriginal
   \<and> outcomeGate 900 1000 = KeepArtifact
   \<and> outcomeGate 1000 1000 = KeepOriginal"
  by (simp add: outcomeGate_def)

subsection \<open>C10: only the first \<open>.svg\<close> of the base name is replaced\<close>

text \<open>
  C10. The artifact's base name and the rewrite target (\<open>toAvifName\<close> of the name, in
  \<open>avifPath\<close> and in \<open>replaceOriginal\<close>) are the original base name with the first
  occurrence of \<open>.svg\<close> replaced by \<open>.avif\<close>: when \<open>.svg\<close> first occurs after the prefix
  \<open>pre\<close>, the derived name is \<open>pre\<close>, then \<open>.avif\<close>, then everything that followed, later
  occurrences of \<open>.svg\<close> included. For \<open>my.svg-icon.svg\<close> the derived name is
  \<open>my.avif-icon.svg\<close>: the trailing extension is not the part replaced.
\<close>

theorem toAvifName_first_occurrence:
  "(name c = pre @ ''.svg'' @ post \<and> \<not> String_includes (pre @ ''.sv'') ''.svg'' \<longrightarrow>
      toAvifName (name c) = pre @ ''.avif'' @ post
      \<and> avifPath c = path_join (dir c) (pre @ ''.avif'' @ post))
   \<and> toAvifName ''my.svg-icon.svg'' = ''my.avif-icon.svg''"
proof (intro conjI impI)
  assume a: "name c = pre @ ''.svg'' @ post \<and> \<not> String_includes (pre @ ''.sv'') ''.svg''"
  then show n: "toAvifName (name c) = pre @ ''.avif'' @ post"
    using String_replace_first [of pre "''.svg''" "''.avif''" post]
    by (simp add: toAvifName_def)
  then show "avifPath c = path_join (dir c) (pre @ ''.avif'' @ post)"
    by (simp add: avifPath_def)
next
  show "toAvifName ''my.svg-icon.svg'' = ''my.avif-icon.svg''"
    by (simp add: toAvifName_def startsWith_def)
qed

theorem toAvifName_first_occurrence_witness:
  "name (logo\<lparr>name := ''my.svg-icon.svg''\<rparr>) = ''my'' @ ''.svg'' @ ''-icon.svg''
   \<and> \<not> String_includes (''my'' @ ''.sv'') ''.svg''
   \<and> toAvifName (name (logo\<lparr>name := ''my.svg-icon.svg''\<rparr>)) = ''my.avif-icon.svg''
   \<and> avifPath (logo\<lparr>name := ''my.svg-icon.svg''\<rparr>) = ''/proj/my.avif-icon.svg''"
  using toAvifName_first_occurrence [of "logo\<lparr>name := ''my.svg-icon.svg''\<rparr>" "''my''" "''-icon.svg''"]
  by (simp add: startsWith_def logo_def path_join_def)

subsection \<open>C1: the file name is used as a pattern, not as a literal\<close>

lemma updateFiles_append:
  "updateFiles other cwd orig new (xs @ ys) w
     = updateFiles other cwd orig new ys (updateFiles other cwd orig new xs w)"
  by (induction xs arbitrary: w) simp_all

text \<open>
  C1 asks that every literal occurrence of \<open>originalName\<close> is replaced and nothing else
  changes, also when the name holds pattern metacharacters. The program builds the pattern
  from the unescaped name, and the two runs below show both ways this goes wrong. With
  \<open>icon.svg\<close> the dot matches any character, so the unrelated text \<open>icon-svg\<close> is
  rewritten too. With \<open>icon (1).svg\<close> the parentheses form a group: the literal occurrence
  is left as it was, although \<open>includes\<close> found it, and the unrelated text \<open>icon 1.svg\<close> is
  replaced. No error is logged in either run. Both names are patterns of the modelled
  fragment, so the runs are the same for every engine \<open>other\<close>.
\<close>

theorem updateFiles_name_is_a_pattern:
  "(let w = updateFiles other ''/proj'' ''icon.svg'' ''icon.avif'' [''README.md''] docs
    in (map_option data (files w ''/proj/README.md''), errors w))
     = (Some ''![logo](icon.avif) from the icon.avif-sprite'', [])
   \<and> String_includes ''[x](icon (1).svg) and icon 1.svg'' ''icon (1).svg''
   \<and> (let w = updateFiles other ''/proj'' ''icon (1).svg'' ''icon (1).avif'' [''docs/a.md''] docs
        in (map_option data (files w ''/proj/docs/a.md''), errors w))
     = (Some ''[x](icon (1).svg) and icon (1).avif'', [])"
  by code_simp

subsection \<open>C9: a file that fails is logged and skipped\<close>

text \<open>
  C9. Suppose the loop of \<open>updateReferences\<close> has worked through the files \<open>pre\<close> and the
  next file \<open>f\<close> fails: reading it raises, or it holds the name and the constructor of the
  pattern or the write raises. Then the error is logged with the file's name, the file
  system is left as it was, and the loop goes on with every remaining file from that state.
  In particular a following file \<open>g\<close> that can be read, holds the name and can be written
  is rewritten. This holds for every file name and every engine.
\<close>

theorem updateFiles_failure_is_skipped:
  assumes pre: "updateFiles other cwd orig new pre w = w1"
    and fail: "readFile (path_join cwd f) (files w1) = Inl e
       \<or> (\<exists>text. readFile (path_join cwd f) (files w1) = Inr text \<and> String_includes text orig
            \<and> (replaceGlobal other orig new text = Inl e
                \<or> (\<exists>updated. replaceGlobal other orig new text = Inr updated
                      \<and> writeFile (path_join cwd f) updated (files w1) = Inl e)))"
  shows "updateFiles other cwd orig new (pre @ f # post) w
           = updateFiles other cwd orig new post (logError f e w1)
         \<and> files (logError f e w1) = files w1
         \<and> errors (logError f e w1) = errors w1 @ [(f, e)]
         \<and> (\<forall>g text updated fs'.
               readFile (path_join cwd g) (files w1) = Inr text \<and> String_includes text orig
               \<and> replaceGlobal other orig new text = Inr updated
               \<and> writeFile (path_join cwd g) updated (files w1) = Inr fs'
               \<longrightarrow> updateFiles other cwd orig new (pre @ [f, g]) w
                     = logError f e w1\<lparr>files := fs'\<rparr>)"
proof -
  have step: "updateFile other cwd orig new f w1 = logError f e w1"
    using fail by (auto simp: updateFile_def Let_def)
  have rest: "updateFiles other cwd orig new (pre @ f # post) w
                = updateFiles other cwd orig new post (logError f e w1)" for post
    by (simp add: updateFiles_append pre step)
  have next_file: "updateFiles other cwd orig new (pre @ [f, g]) w = logError f e w1\<lparr>files := fs'\<rparr>"
    if "readFile (path_join cwd g) (files w1) = Inr body" "String_includes body orig"
      "replaceGlobal other orig new body = Inr updated"
      "writeFile (path_join cwd g) updated (files w1) = Inr fs'" for g body updated fs'
    using that by (simp add: rest updateFile_def Let_def logError_def)
  show ?thesis
    using rest [of post] next_file by (auto simp: logError_def)
qed

theorem updateFiles_failure_is_skipped_witness:
  "updateFiles rejecting ''/proj'' ''icon.svg'' ''icon.avif'' [] docs = docs
   \<and> readFile (path_join ''/proj'' ''locked.md'') (files docs) = Inl EACCES
   \<and> updateFiles rejecting ''/proj'' ''icon.svg'' ''icon.avif'' ([] @ ''locked.md'' # [''README.md'']) docs
       = updateFiles rejecting ''/proj'' ''icon.svg'' ''icon.avif'' [''README.md'']
           (logError ''locked.md'' EACCES docs)
   \<and> (let w = updateFiles rejecting ''/proj'' ''icon.svg'' ''icon.avif''
                  ([] @ ''locked.md'' # [''README.md'']) docs
        in (map_option data (files w ''/proj/README.md''), errors w))
       = (Some ''![logo](icon.avif) from the icon.avif-sprite'', [(''locked.md'', EACCES)])
   \<and> writeFile (path_join ''/proj'' ''frozen.md'') ''see icon.avif'' (files docs) = Inl EACCES
   \<and> (let w = updateFiles rejecting ''/proj'' ''icon.svg'' ''icon.avif''
                  ([] @ ''frozen.md'' # [''README.md'']) docs
        in (map_option data (files w ''/proj/frozen.md''),
            map_option data (files w ''/proj/README.md''), errors w))
       = (Some ''see icon.svg'', Some ''![logo](icon.avif) from the icon.avif-sprite'',
          [(''frozen.md'', EACCES)])"
proof -
  have pre: "updateFiles rejecting ''/proj'' ''icon.svg'' ''icon.avif'' [] docs = docs"
    by simp
  have unreadable: "readFile (path_join ''/proj'' ''locked.md'') (files docs) = Inl EACCES"
    by (simp add: readFile_def path_join_def docs_def)
  have run: "(let w = updateFiles rejecting ''/proj'' ''icon.svg'' ''icon.avif'' [''README.md'']
                        (logError ''locked.md'' EACCES docs)
              in (map_option data (files w ''/proj/README.md''), errors w))
       = (Some ''![logo](icon.avif) from the icon.avif-sprite'', [(''locked.md'', EACCES)])"
    by code_simp
  from updateFiles_failure_is_skipped [OF pre disjI1 [OF unreadable], of "[''README.md'']"]
  have skip: "updateFiles rejecting ''/proj'' ''icon.svg'' ''icon.avif'' ([] @ ''locked.md'' # [''README.md'']) docs
       = updateFiles rejecting ''/proj'' ''icon.svg'' ''icon.avif'' [''README.md'']
           (logError ''locked.md'' EACCES docs)"
    by blast
  have rd: "readFile (path_join ''/proj'' ''frozen.md'') (files docs) = Inr ''see icon.svg''"
    by (simp add: readFile_def path_join_def docs_def)
  have inc: "String_includes ''see icon.svg'' ''icon.svg''"
    by (simp add: startsWith_def)
  have rx: "replaceGlobal rejecting ''icon.svg'' ''icon.avif'' ''see icon.svg'' = Inr ''see icon.avif''"
    by code_simp
  have unwritable: "writeFile (path_join ''/proj'' ''frozen.md'') ''see icon.avif'' (files docs) = Inl EACCES"
    by (simp add: writeFile_def path_join_def docs_def)
  have fail: "readFile (path_join ''/proj'' ''frozen.md'') (files docs) = Inl EACCES
       \<or> (\<exists>body. readFile (path_join ''/proj'' ''frozen.md'') (files docs) = Inr body
              \<and> String_includes body ''icon.svg''
              \<and> (replaceGlobal rejecting ''icon.svg'' ''icon.avif'' body = Inl EACCES
                  \<or> (\<exists>updated. replaceGlobal rejecting ''icon.svg'' ''icon.avif'' body = Inr updated
                        \<and> writeFile (path_join ''/proj'' ''frozen.md'') updated (files docs) = Inl EACCES)))"
    using rd inc rx unwritable by blast
  from updateFiles_failure_is_skipped [OF pre fail, of "[''README.md'']"]
  have skip2: "updateFiles rejecting ''/proj'' ''icon.svg'' ''icon.avif'' ([] @ ''frozen.md'' # [''README.md'']) docs
       = updateFiles rejecting ''/proj'' ''icon.svg'' ''icon.avif'' [''README.md'']
           (logError ''frozen.md'' EACCES docs)"
    by blast
  have run2: "(let w = updateFiles rejecting ''/proj'' ''icon.svg'' ''icon.avif'' [''README.md'']
                         (logError ''frozen.md'' EACCES docs)
               in (map_option data (files w ''/proj/frozen.md''),
                   map_option data (files w ''/proj/README.md''), errors w))
       = (Some ''see icon.svg'', Some ''![logo](icon.avif) from the icon.avif-sprite'',
          [(''frozen.md'', EACCES)])"
    by code_simp
  show ?thesis
    using pre unreadable skip run unwritable skip2 run2 by (simp only: simp_thms)
qed

subsection \<open>Numbers: the rounding error of \<open>fl\<close>, and integer widths\<close>

text \<open>
  A positive rational in the normal range is rounded with a relative error of at most
  \<open>2^-53\<close>. For a width written in decimal digits, up to a million, the two rounded
  operations of the width formula stay within \<open>4 * 10^-9\<close> of the exact value, which lies
  at least \<open>10^-6\<close> away from the nearest half: the result is the exact value rounded.
\<close>

lemma floor_log2_bounds:
  assumes "0 < x"
  shows "2 powi (floor_log2 x) \<le> x \<and> x < 2 powi (floor_log2 x + 1)"
proof -
  obtain p q where pq: "quotient_of x = (p, q)" by (cases "quotient_of x")
  have q: "0 < q" using pq by (rule quotient_of_denom_pos)
  have x: "x = of_int p / of_int q" using pq by (rule quotient_of_div)
  have p: "0 < p" using assms q x by (simp add: zero_less_divide_iff)
  define bp where "bp = bitlen p"
  define bq where "bq = bitlen q"
  have bp1: "1 \<le> bp" and bq1: "1 \<le> bq"
    using p q by (auto simp: bp_def bq_def bitlen_alt_def)
  from bitlen_bounds [OF p] have pl: "(2::rat) powi (bp - 1) \<le> of_int p"
    and pu: "of_int p < (2::rat) powi bp"
    using bp1 unfolding bp_def [symmetric]
    by (simp_all add: power_int_def)
  from bitlen_bounds [OF q] have ql: "(2::rat) powi (bq - 1) \<le> of_int q"
    and qu: "of_int q < (2::rat) powi bq"
    using bq1 unfolding bq_def [symmetric]
    by (simp_all add: power_int_def)
  have qpos: "(0::rat) < of_int q" using q by simp
  have low: "(2::rat) powi (bp - bq - 1) \<le> x"
  proof -
    have "(2::rat) powi (bp - bq - 1) = 2 powi ((bp - 1) - bq)"
      by (rule arg_cong [where f = "power_int 2"]) simp
    also have "\<dots> = 2 powi (bp - 1) / 2 powi bq"
      by (rule power_int_diff) simp
    also have "\<dots> \<le> of_int p / 2 powi bq"
      using pl by (simp add: divide_right_mono)
    also have "\<dots> \<le> of_int p / of_int q"
      using qu qpos p by (simp add: frac_le)
    finally show ?thesis using x by simp
  qed
  have up: "x < (2::rat) powi (bp - bq + 1)"
  proof -
    have pos: "(0::rat) < 2 powi (bq - 1)" by simp
    have "x = of_int p / of_int q" by (rule x)
    also have "\<dots> \<le> of_int p / 2 powi (bq - 1)"
      using ql pos p by (simp add: frac_le)
    also have "\<dots> < 2 powi bp / 2 powi (bq - 1)"
      using pu pos by (simp add: divide_strict_right_mono)
    also have "\<dots> = 2 powi (bp - (bq - 1))"
      by (rule power_int_diff [symmetric]) simp
    also have "\<dots> = 2 powi (bp - bq + 1)"
      by (rule arg_cong [where f = "power_int 2"]) simp
    finally show ?thesis .
  qed
  show ?thesis
    using low up pq by (auto simp: floor_log2_def bp_def bq_def Let_def not_le)
qed

lemma round_half_even_error: "\<bar>of_int (round_half_even x) - x\<bar> \<le> 1 / 2"
proof -
  have "of_int \<lfloor>x\<rfloor> \<le> x" "x < of_int \<lfloor>x\<rfloor> + 1" by linarith+
  then show ?thesis by (auto simp: round_half_even_def Let_def)
qed

lemma fl_error:
  assumes lo: "2 powi (- 1022) \<le> x" and hi: "x < 2 powi 1023"
  shows "\<exists>y. fl x = Finite y \<and> \<bar>y - x\<bar> \<le> x / 2 ^ 53"
proof -
  have "(0::rat) < 2 powi (- 1022)" by simp
  with lo have pos: "0 < x" by linarith
  note b = floor_log2_bounds [OF pos]
  define L where "L = floor_log2 x"
  have Llo: "- 1022 \<le> L"
  proof (rule ccontr)
    assume "\<not> - 1022 \<le> L"
    then have "L + 1 \<le> - 1022" by simp
    then have "(2::rat) powi (L + 1) \<le> 2 powi (- 1022)" by (intro power_int_increasing) simp_all
    with b lo show False unfolding L_def by linarith
  qed
  have Lhi: "L \<le> 1022"
  proof (rule ccontr)
    assume "\<not> L \<le> 1022"
    then have "1023 \<le> L" by simp
    then have "(2::rat) powi 1023 \<le> 2 powi L" by (intro power_int_increasing) simp_all
    with b hi show False unfolding L_def by linarith
  qed
  define e where "e = L - 52"
  define m where "m = round_half_even (x / 2 powi e)"
  define y where "y = of_int m * (2::rat) powi e"
  have emax: "max (floor_log2 \<bar>x\<bar> - 52) (- 1074) = e"
    using Llo pos by (simp add: e_def L_def)
  have e970: "e \<le> 970" using Lhi by (simp add: e_def)
  have flx: "fl x = Finite y"
    using pos e970 emax by (simp add: fl_def Let_def y_def m_def)
  have epos: "(0::rat) < 2 powi e" by simp
  have "\<bar>of_int m - x / 2 powi e\<bar> \<le> 1 / 2"
    unfolding m_def by (rule round_half_even_error)
  then have "\<bar>of_int m - x / 2 powi e\<bar> * 2 powi e \<le> 1 / 2 * 2 powi e"
    using epos by (simp add: mult_right_mono)
  moreover have "\<bar>of_int m - x / 2 powi e\<bar> * 2 powi e = \<bar>y - x\<bar>"
  proof -
    have "\<bar>of_int m - x / 2 powi e\<bar> * 2 powi e = \<bar>(of_int m - x / 2 powi e) * 2 powi e\<bar>"
      using epos by (simp add: abs_mult)
    also have "(of_int m - x / 2 powi e) * 2 powi e = y - x"
      using epos by (simp add: y_def algebra_simps)
    finally show ?thesis .
  qed
  ultimately have err: "\<bar>y - x\<bar> \<le> 2 powi e / 2" by simp
  have "(2::rat) powi e = 2 powi L / 2 ^ 52"
    by (simp add: e_def power_int_diff)
  also have "\<dots> \<le> x / 2 ^ 52"
    using b unfolding L_def by (simp add: divide_right_mono)
  finally have "(2::rat) powi e / 2 \<le> x / 2 ^ 53" by simp
  with err flx show ?thesis by (intro exI [of _ y]) simp
qed

lemma not_half: "(3124760 * n + 696661) mod 1000000 \<noteq> (0::int)"
proof
  assume z: "(3124760 * n + 696661) mod 1000000 = (0::int)"
  have "(3124760 * n + 696661) mod 40 = ((3124760 * n + 696661) mod 1000000) mod (40::int)"
    by (simp add: mod_mod_cancel)
  with z have z40: "(3124760 * n + 696661) mod 40 = (0::int)" by simp
  have eq: "3124760 * n + 696661 = 40 * (78119 * n + 17416) + 21" by simp
  have "(40 * (78119 * n + 17416) + 21) mod 40 = 21 mod (40::int)"
    by (rule mod_mult_self4)
  then have "(3124760 * n + 696661) mod 40 = 21 mod (40::int)"
    by (simp only: eq)
  with z40 show False by simp
qed

lemma fl_factor: "fl (312476 / 100000) = Finite (1759083496452779 / 562949953421312)"
  by code_simp

lemma fl_offset: "fl (196661 / 1000000) = Finite (7085459250546473 / 36028797018963968)"
  by code_simp

lemma fl_offset_exact:
  "fl (7085459250546473 / 36028797018963968) = Finite (7085459250546473 / 36028797018963968)"
  by code_simp

lemma integer_width:
  assumes n0: "0 \<le> n" and n1: "n \<le> 1000000"
  shows "Math_round (fadd (fmul (fl (312476 / 100000)) (Finite (of_int n))) (fl (196661 / 1000000)))
           = Finite (of_int ((3124760 * n + 696661) div 1000000))"
proof (cases "n = 0")
  case True
  have "fmul (fl (312476 / 100000)) (Finite (of_int n)) = fl 0"
    unfolding fl_factor True by (simp only: fmul.simps of_int_0 mult_zero_right)
  also have "\<dots> = Finite 0" by (simp add: fl_def)
  finally have m: "fmul (fl (312476 / 100000)) (Finite (of_int n)) = Finite 0" .
  have "fadd (Finite 0) (fl (196661 / 1000000)) = fl (7085459250546473 / 36028797018963968)"
    unfolding fl_offset by (simp only: fadd.simps add_0)
  then have s: "fadd (Finite 0) (fl (196661 / 1000000)) = Finite (7085459250546473 / 36028797018963968)"
    by (simp only: fl_offset_exact)
  have "Math_round (fadd (fmul (fl (312476 / 100000)) (Finite (of_int n))) (fl (196661 / 1000000)))
          = Math_round (Finite (7085459250546473 / 36028797018963968))"
    by (simp only: m s)
  also have "\<dots> = Finite 0" by (simp add: floor_unique)
  also have "(0::rat) = of_int ((3124760 * n + 696661) div 1000000)"
    by (simp add: True)
  finally show ?thesis .
next
  case False
  with n0 have n1': "1 \<le> n" by simp
  define a :: rat where "a = 1759083496452779 / 562949953421312"
  define b :: rat where "b = 7085459250546473 / 36028797018963968"
  define N :: rat where "N = of_int n"
  have N: "1 \<le> N" "N \<le> 1000000" using n1' n1 by (simp_all add: N_def)
  define x1 where "x1 = a * N"
  have x1: "2 \<le> x1" "x1 \<le> 4000000" using N by (simp_all add: x1_def a_def)
  have "2 powi (- 1022) \<le> x1"
  proof -
    have "(2::rat) powi (- 1022) \<le> 2 powi 1" by (intro power_int_increasing) simp_all
    with x1 show ?thesis by simp
  qed
  moreover have big: "(4000001::rat) < 2 powi 1023"
  proof -
    have "(4000001::rat) < 2 powi 22" by simp
    also have "\<dots> \<le> 2 powi 1023" by (intro power_int_increasing) simp_all
    finally show ?thesis .
  qed
  then have "x1 < 2 powi 1023" using x1 by simp
  ultimately obtain y1 where y1: "fl x1 = Finite y1" and e1: "\<bar>y1 - x1\<bar> \<le> x1 / 2 ^ 53"
    using fl_error by blast
  define x2 where "x2 = y1 + b"
  have pw: "(2::rat) ^ 53 = 9007199254740992" by simp
  from abs_le_D1 [OF e1] have up1: "y1 - x1 \<le> x1 / 9007199254740992" by (simp only: pw)
  from abs_le_D2 [OF e1] have lo1: "- (y1 - x1) \<le> x1 / 9007199254740992" by (simp only: pw)
  have "1 \<le> x2"
    using x1 up1 lo1 unfolding x2_def b_def by linarith
  moreover have "x2 \<le> 4000001"
    using x1 up1 lo1 unfolding x2_def b_def by linarith
  ultimately have x2: "1 \<le> x2" "x2 \<le> 4000001" by simp_all
  have "2 powi (- 1022) \<le> x2"
  proof -
    have "(2::rat) powi (- 1022) \<le> 2 powi 0" by (intro power_int_increasing) simp_all
    with x2 show ?thesis by simp
  qed
  moreover have "x2 < 2 powi 1023" using x2 big by simp
  ultimately obtain y2 where y2: "fl x2 = Finite y2" and e2: "\<bar>y2 - x2\<bar> \<le> x2 / 2 ^ 53"
    using fl_error by blast
  have "fmul (fl (312476 / 100000)) (Finite (of_int n)) = fl x1"
    unfolding fl_factor x1_def a_def N_def by (simp only: fmul.simps)
  moreover have "fadd (Finite y1) (fl (196661 / 1000000)) = fl x2"
    unfolding fl_offset x2_def b_def by (simp only: fadd.simps)
  ultimately have lhs: "Math_round (fadd (fmul (fl (312476 / 100000)) (Finite (of_int n))) (fl (196661 / 1000000)))
           = Finite (of_int \<lfloor>y2 + 1 / 2\<rfloor>)"
    by (simp only: y1 y2 Math_round.simps)
  define T where "T = 3124760 * n + 696661"
  define k where "k = T div 1000000"
  define r where "r = T mod 1000000"
  have r: "1 \<le> r" "r \<le> 999999"
    using not_half [of n] pos_mod_sign [of 1000000 T] pos_mod_bound [of 1000000 T]
    by (simp_all add: r_def T_def)
  have "T = 1000000 * k + r" by (simp add: k_def r_def)
  then have "(of_int T :: rat) = 1000000 * of_int k + of_int r"
    by (metis of_int_add of_int_mult of_int_numeral)
  then have T: "3124760 * N + 696661 = 1000000 * of_int k + (of_int r :: rat)"
    by (simp add: T_def N_def)
  have R: "(1::rat) \<le> of_int r" "(of_int r :: rat) \<le> 999999" using r by simp_all
  from abs_le_D1 [OF e2] have up2: "y2 - x2 \<le> x2 / 9007199254740992" by (simp only: pw)
  from abs_le_D2 [OF e2] have lo2: "- (y2 - x2) \<le> x2 / 9007199254740992" by (simp only: pw)
  define t :: rat where "t = (3124760 * N + 196661) / 1000000"
  have d1: "y1 - x1 \<le> 1 / 1000000000" "x1 - y1 \<le> 1 / 1000000000"
    using up1 lo1 x1(2) by linarith+
  have d2: "y2 - x2 \<le> 1 / 1000000000" "x2 - y2 \<le> 1 / 1000000000"
    using up2 lo2 x2(2) by linarith+
  have "x1 - 312476 / 100000 * N = (a - 312476 / 100000) * N"
    by (simp add: x1_def algebra_simps)
  also have "a - 312476 / 100000 = (359 / 1759218604441600000 :: rat)"
    unfolding a_def by simp
  finally have "x1 - 312476 / 100000 * N = 359 / 1759218604441600000 * N" by simp
  then have d3: "x1 - 312476 / 100000 * N \<le> 1 / 1000000000"
    "312476 / 100000 * N - x1 \<le> 1 / 1000000000"
    using N by linarith+
  have d4: "b - 196661 / 1000000 \<le> 1 / 1000000000" "196661 / 1000000 - b \<le> 1 / 1000000000"
    by (simp_all add: b_def)
  have t: "t = 312476 / 100000 * N + 196661 / 1000000"
    by (simp add: t_def field_simps)
  have near: "y2 - t \<le> 4 / 1000000000" "t - y2 \<le> 4 / 1000000000"
    using d1 d2 d3 d4 unfolding t x2_def by linarith+
  have tk: "t + 1 / 2 = of_int k + of_int r / 1000000"
    using T by (simp add: t_def field_simps)
  have "of_int k \<le> y2 + 1 / 2"
    using near tk R by linarith
  moreover have "y2 + 1 / 2 < of_int k + 1"
    using near tk R by linarith
  ultimately have "\<lfloor>y2 + 1 / 2\<rfloor> = k" by (simp add: floor_unique)
  then show ?thesis using lhs by (simp add: k_def T_def)
qed

lemma digit_not_space: "isDigitOf 10 c \<Longrightarrow> \<not> isStrWhiteSpaceChar c"
  by (auto simp: isDigitOf_def digitValue_def isStrWhiteSpaceChar_def Let_def split: if_splits)

lemma digit_not_sign:
  "isDigitOf 10 c \<Longrightarrow> c \<noteq> CHR ''-'' \<and> c \<noteq> CHR ''+'' \<and> c \<noteq> CHR ''I''
     \<and> c \<noteq> CHR ''x'' \<and> c \<noteq> CHR ''X'' \<and> c \<noteq> CHR ''o'' \<and> c \<noteq> CHR ''O''
     \<and> c \<noteq> CHR ''b'' \<and> c \<noteq> CHR ''B''"
  by (auto simp: isDigitOf_def digitValue_def Let_def split: if_splits)

lemma trimString_digits:
  assumes "ds \<noteq> []" and "list_all (isDigitOf 10) ds"
  shows "trimString ds = ds"
proof -
  have h: "\<not> isStrWhiteSpaceChar (hd ds)" and l: "\<not> isStrWhiteSpaceChar (last ds)"
    using assms by (auto simp: list_all_iff digit_not_space)
  have "dropWhile isStrWhiteSpaceChar ds = ds"
    using assms(1) h by (cases ds) simp_all
  moreover have "dropWhile isStrWhiteSpaceChar (rev ds) = rev ds"
    using assms(1) l by (cases ds rule: rev_cases) simp_all
  ultimately show ?thesis by (simp add: trimString_def)
qed

lemma radixPrefix_digits: "list_all (isDigitOf 10) ds \<Longrightarrow> radixPrefix ds = None"
  by (auto simp: radixPrefix_def split: list.splits dest: digit_not_sign)

lemma strDecimalLiteral_digits:
  assumes "ds \<noteq> []" and "list_all (isDigitOf 10) ds"
  shows "strDecimalLiteral ds = fl (of_int (digitsValue 10 ds))"
proof -
  obtain c cs where ds: "ds = c # cs" using assms(1) by (cases ds) auto
  have c: "isDigitOf 10 c" using assms(2) ds by simp
  note s = digit_not_sign [OF c]
  have inf: "ds \<noteq> ''Infinity''" using ds s by auto
  have tw: "takeWhile (isDigitOf 10) ds = ds" "dropWhile (isDigitOf 10) ds = []"
    using assms(2) by (simp_all add: list_all_iff)
  have sp: "(case ds of
               [] \<Rightarrow> (False, [])
             | c # r \<Rightarrow> if c = CHR ''-'' then (True, r)
                        else if c = CHR ''+'' then (False, r) else (False, ds)) = (False, ds)"
    using s by (simp add: ds)
  show ?thesis
    unfolding strDecimalLiteral_def sp
    using inf assms(1) by (simp add: tw exponentPart_def del: takeWhile_eq_all_conv)
qed

lemma Number_digits:
  assumes "ds \<noteq> []" and "list_all (isDigitOf 10) ds"
  shows "Number ds = fl (of_int (digitsValue 10 ds))"
  using assms
  by (simp add: Number_def trimString_digits radixPrefix_digits strDecimalLiteral_digits)

lemma digitsValue_nonneg: "0 \<le> digitsValue radix ds"
proof -
  have "0 \<le> acc \<Longrightarrow>
        0 \<le> foldl (\<lambda>acc c. acc * int radix + (case digitValue c of None \<Rightarrow> 0 | Some d \<Rightarrow> int d)) acc ds"
    for acc
    by (induction ds arbitrary: acc) (auto split: option.splits)
  then show ?thesis by (simp add: digitsValue_def)
qed

lemma round_half_even_int: "round_half_even (of_int j) = j"
  by (simp add: round_half_even_def)

lemma fl_int_exact:
  assumes "0 \<le> n" and "n \<le> 1000000"
  shows "fl (of_int n) = Finite (of_int n)"
proof (cases "n = 0")
  case True
  then show ?thesis by (simp add: fl_def)
next
  case False
  define x :: rat where "x = of_int n"
  have x: "1 \<le> x" "x \<le> 1000000" using assms False by (simp_all add: x_def)
  then have pos: "0 < x" by simp
  note b = floor_log2_bounds [OF pos]
  define L where "L = floor_log2 x"
  have L0: "0 \<le> L"
  proof (rule ccontr)
    assume "\<not> 0 \<le> L"
    then have "L + 1 \<le> 0" by simp
    then have "(2::rat) powi (L + 1) \<le> 2 powi 0" by (intro power_int_increasing) simp_all
    with b x show False unfolding L_def by simp
  qed
  have L52: "L \<le> 52"
  proof (rule ccontr)
    assume "\<not> L \<le> 52"
    then have "53 \<le> L" by simp
    then have "(2::rat) powi 53 \<le> 2 powi L" by (intro power_int_increasing) simp_all
    with b x show False unfolding L_def by simp
  qed
  define d where "d = nat (52 - L)"
  have e: "L - 52 = - int d" using L52 by (simp add: d_def)
  have emax: "max (floor_log2 \<bar>x\<bar> - 52) (- 1074) = - int d"
    using pos L0 e by (simp add: L_def)
  have q: "x / 2 powi (- int d) = of_int (n * 2 ^ d)"
    by (simp add: x_def power_int_minus field_simps)
  have m: "round_half_even (x / 2 powi (- int d)) = n * 2 ^ d"
    unfolding q by (rule round_half_even_int)
  have y: "of_int (n * 2 ^ d) * (2::rat) powi (- int d) = x"
    by (simp add: x_def power_int_minus field_simps)
  have "fl x = Finite x"
    using pos emax m y by (simp add: fl_def Let_def)
  then show ?thesis by (simp add: x_def)
qed

lemma targetWidth_digits:
  assumes "W \<noteq> []" and "list_all (isDigitOf 10) W" and "digitsValue 10 W \<le> 1000000"
  shows "targetWidth W = Finite (of_int ((3124760 * digitsValue 10 W + 696661) div 1000000))"
proof -
  have "Number W = Finite (of_int (digitsValue 10 W))"
    using assms digitsValue_nonneg [of 10 W] by (simp add: Number_digits fl_int_exact)
  then show ?thesis
    unfolding targetWidth_def
    using integer_width [OF digitsValue_nonneg assms(3)] by simp
qed

subsection \<open>Candidate selection\<close>

lemmas analyze_eval =
  icons_def svg_open_def stat_def readFile_def path_join_def dirname_def basename_def
  svg_width_prefix_def startsWith_def isLineTerminator_def

lemma targetWidth_24: "targetWidth ''24'' = Finite 75"
  by code_simp

lemma targetWidth_100: "targetWidth ''100'' = Finite 313"
  by code_simp

lemma targetWidth_500: "targetWidth ''500'' = Finite 1563"
  by code_simp

lemma targetWidth_percent: "targetWidth ''100%'' = NaN"
  by code_simp

text \<open>
  The operations are those of the doubles, not of the rationals: for a width with a long
  fraction the two can differ in the last place, and so in the rounded result. For the width
  below, the exact value of the formula lies just under one half, and the computed value is
  one half, which \<open>Math.round\<close> rounds up.
\<close>

lemma targetWidth_fraction:
  "targetWidth ''0.09707593543184116'' = Finite 1
   \<and> \<lfloor>(312476 / 100000 :: rat) * (9707593543184116 / 10 ^ 17) + 196661 / 1000000 + 1 / 2\<rfloor> = 0"
proof
  show "targetWidth ''0.09707593543184116'' = Finite 1" by code_simp
  show "\<lfloor>(312476 / 100000 :: rat) * (9707593543184116 / 10 ^ 17) + 196661 / 1000000 + 1 / 2\<rfloor> = 0"
    by (rule floor_unique) simp_all
qed

lemma analyze_logo:
  "analyze ''/proj'' icons ''logo.svg''
     = Inr (Some \<lparr>path = ''/proj/logo.svg'', dir = ''/proj'', name = ''logo.svg'',
                   content = svg_open ''100'' @ ''<image/>'' @ replicate 10240 (CHR '' '') @ ''</svg>'',
                   width = Finite 313\<rparr>)"
  by (simp add: analyze_def analyze_eval targetWidth_100)

text \<open>
  C4. For every candidate either revision selects, the computed target width is
  \<open>Math.round(3.12476 * Number(W) + 0.196661)\<close> for the value \<open>W\<close> that the pattern
  \<open><svg width="(.*?)"\<close> captures in the file's content, the operations being those of
  double precision arithmetic. When \<open>W\<close> is written in decimal digits and is at most a
  million, this is the exact value of \<open>3.12476 * W + 0.196661\<close> rounded to the nearest
  integer, that is \<open>(3124760 * W + 696661) div 1000000\<close>. \<open>W = 100\<close> yields 313 and
  \<open>W = 500\<close> yields 1563.
\<close>

theorem selected_width_formula:
  assumes "analyze cwd fs file = Inr (Some c) \<or> analyze_B cwd fs file = Inr (Some c)"
    and "exec_svg_width (content c) = Some W"
  shows "width c = Math_round (fadd (fmul (fl (312476 / 100000)) (Number W)) (fl (196661 / 1000000)))
         \<and> (list_all (isDigitOf 10) W \<and> digitsValue 10 W \<le> 1000000 \<longrightarrow>
               width c = Finite (of_int ((3124760 * digitsValue 10 W + 696661) div 1000000)))
         \<and> (W = ''100'' \<longrightarrow> width c = Finite 313)
         \<and> (W = ''500'' \<longrightarrow> width c = Finite 1563)"
proof -
  have w: "width c = targetWidth W" and ne: "W \<noteq> []"
    using assms
    by (auto simp: analyze_def analyze_B_def Let_def split: sum.splits option.splits if_splits)
  have "width c = Math_round (fadd (fmul (fl (312476 / 100000)) (Number W)) (fl (196661 / 1000000)))"
    using w by (simp add: targetWidth_def)
  moreover have "width c = Finite (of_int ((3124760 * digitsValue 10 W + 696661) div 1000000))"
    if "list_all (isDigitOf 10) W" "digitsValue 10 W \<le> 1000000"
    using targetWidth_digits [OF ne that] w by simp
  moreover have "W = ''100'' \<longrightarrow> width c = Finite 313"
    using w targetWidth_100 by simp
  moreover have "W = ''500'' \<longrightarrow> width c = Finite 1563"
    using w targetWidth_500 by simp
  ultimately show ?thesis by blast
qed

theorem selected_width_formula_witness:
  "analyze ''/proj'' icons ''logo.svg''
     = Inr (Some \<lparr>path = ''/proj/logo.svg'', dir = ''/proj'', name = ''logo.svg'',
                   content = svg_open ''100'' @ ''<image/>'' @ replicate 10240 (CHR '' '') @ ''</svg>'',
                   width = Finite 313\<rparr>)
   \<and> exec_svg_width (svg_open ''100'' @ ''<image/>'' @ replicate 10240 (CHR '' '') @ ''</svg>'')
       = Some ''100''
   \<and> list_all (isDigitOf 10) ''100'' \<and> digitsValue 10 ''100'' = 100
   \<and> Finite 313
       = Math_round (fadd (fmul (fl (312476 / 100000)) (Number ''100'')) (fl (196661 / 1000000)))
   \<and> Finite 313 = Finite (of_int ((3124760 * 100 + 696661) div 1000000))"
proof -
  have cap: "exec_svg_width (svg_open ''100'' @ ''<image/>'' @ replicate 10240 (CHR '' '') @ ''</svg>'')
       = Some ''100''"
    by (simp add: analyze_eval)
  have digits: "list_all (isDigitOf 10) ''100'' \<and> digitsValue 10 ''100'' = 100"
    by (simp add: isDigitOf_def digitValue_def digitsValue_def)
  show ?thesis
    using selected_width_formula [OF disjI1 [OF analyze_logo], of "''100''"] analyze_logo cap digits
    by simp
qed

text \<open>
  C5, as amended. In the first revision a discovered file below 10 KiB never becomes a
  candidate, whatever its content: the callback returns \<open>null\<close> when the file can be read
  (a read that fails rejects instead). The second revision has no size threshold: for a
  file that can be read it returns \<open>null\<close> exactly when the pattern captures no width, or an
  empty one, or the content holds no \<open><image\<close>.
\<close>

theorem analyze_excludes_small:
  assumes "stat (path_join cwd file) fs = Inr sz" and "sz < 10 * 1024"
  shows "(\<forall>c. analyze cwd fs file \<noteq> Inr (Some c))
         \<and> (\<forall>body. readFile (path_join cwd file) fs = Inr body \<longrightarrow>
               analyze cwd fs file = Inr None
               \<and> (analyze_B cwd fs file = Inr None) =
                   (exec_svg_width body = None \<or> exec_svg_width body = Some []
                    \<or> \<not> String_includes body ''<image''))"
  using assms
  by (auto simp: analyze_def analyze_B_def Let_def split: sum.splits option.splits)

theorem analyze_excludes_small_witness:
  "stat (path_join ''/proj'' ''small.svg'') icons = Inr 30 \<and> (30::nat) < 10 * 1024
   \<and> readFile (path_join ''/proj'' ''small.svg'') icons = Inr (svg_open ''24'' @ ''<image/></svg>'')
   \<and> analyze ''/proj'' icons ''small.svg'' = Inr None"
proof -
  have sz: "stat (path_join ''/proj'' ''small.svg'') icons = Inr 30"
    by (simp add: analyze_eval)
  have lt: "(30::nat) < 10 * 1024"
    by simp
  have rd: "readFile (path_join ''/proj'' ''small.svg'') icons = Inr (svg_open ''24'' @ ''<image/></svg>'')"
    by (simp add: analyze_eval)
  show ?thesis
    using analyze_excludes_small [OF sz lt] sz rd by simp
qed

text \<open>
  The claim as stated fails in the second revision: the file of 30 bytes is selected.
\<close>

theorem analyze_B_selects_small_file:
  "stat ''/proj/small.svg'' icons = Inr 30
   \<and> analyze_B ''/proj'' icons ''small.svg''
       = Inr (Some \<lparr>path = ''/proj/small.svg'', dir = ''/proj'', name = ''small.svg'',
                     content = svg_open ''24'' @ ''<image/></svg>'', width = Finite 75\<rparr>)"
  by (simp add: analyze_B_def analyze_eval targetWidth_24)

text \<open>
  C6 asks that a file whose width attribute is not a number is excluded. Both revisions
  only test that the captured text is not empty (\<open>if (!width)\<close>): a file above 10 KiB
  that declares \<open>width="100%"\<close> is selected, and its target width is \<open>NaN\<close>.
\<close>

theorem analyze_selects_non_numeric_width:
  "stat ''/proj/wide.svg'' icons = Inr 10272
   \<and> analyze ''/proj'' icons ''wide.svg''
       = Inr (Some \<lparr>path = ''/proj/wide.svg'', dir = ''/proj'', name = ''wide.svg'',
                     content = svg_open ''100%'' @ ''<image/>'' @ replicate 10240 (CHR '' '') @ ''</svg>'',
                     width = NaN\<rparr>)
   \<and> analyze_B ''/proj'' icons ''wide.svg''
       = Inr (Some \<lparr>path = ''/proj/wide.svg'', dir = ''/proj'', name = ''wide.svg'',
                     content = svg_open ''100%'' @ ''<image/>'' @ replicate 10240 (CHR '' '') @ ''</svg>'',
                     width = NaN\<rparr>)"
  by (simp add: analyze_def analyze_B_def analyze_eval targetWidth_percent)

subsection \<open>\<open>convert\<close>: what each step leaves behind\<close>

lemma openSession_effect:
  assumes "openSession rm w = (r, w1)"
  shows "files w1 = files w"
    and "r = None \<Longrightarrow> browsers w1 = Suc (browsers w) \<and> contexts w1 = Suc (contexts w)"
    and "r \<noteq> None \<Longrightarrow> launch rm \<Longrightarrow> browsers w1 = Suc (browsers w)"
    and "r \<noteq> None \<Longrightarrow> \<not> launch rm \<Longrightarrow> browsers w1 = browsers w"
  using assms by (auto simp: openSession_def Let_def split: if_splits)

lemma openSession_launch: "openSession rm w = (None, w1) \<Longrightarrow> launch rm"
  by (auto simp: openSession_def Let_def split: if_splits)

lemma writeFile_other: "writeFile q s fs = Inr fs' \<Longrightarrow> p \<noteq> q \<Longrightarrow> fs' p = fs p"
  by (auto simp: writeFile_def split: option.splits if_splits)

lemma produceArtifact_other:
  "produceArtifact rm c fs = (r, fs') \<Longrightarrow> p \<noteq> avifPath c \<Longrightarrow> fs' p = fs p"
  by (auto simp: produceArtifact_def split: sum.splits option.splits)
     (metis writeFile_other)+

lemma produceArtifact_exists:
  "produceArtifact rm c fs = (None, fs') \<Longrightarrow> fs' (avifPath c) \<noteq> None"
  by (auto simp: produceArtifact_def writeFile_def split: sum.splits option.splits if_splits)

lemma updateFile_preserves:
  "browsers (updateFile other cwd orig new f w) = browsers w
   \<and> contexts (updateFile other cwd orig new f w) = contexts w
   \<and> (files (updateFile other cwd orig new f w) p = None) = (files w p = None)"
proof -
  have "(fs' p = None) = (files w p = None)"
    if "readFile q (files w) = Inr body" "writeFile q u (files w) = Inr fs'" for q body u fs'
    using that by (auto simp: readFile_def writeFile_def split: option.splits if_splits)
  then show ?thesis
    by (auto simp: updateFile_def Let_def logError_def split: sum.splits)
qed

lemma updateFiles_preserves:
  "browsers (updateFiles other cwd orig new fs w) = browsers w
   \<and> contexts (updateFiles other cwd orig new fs w) = contexts w
   \<and> (files (updateFiles other cwd orig new fs w) p = None) = (files w p = None)"
  by (induction fs arbitrary: w) (simp_all add: updateFile_preserves)

lemma updateReferences_preserves:
  assumes "updateReferences other tf cwd orig new w = (r, w')"
  shows "browsers w' = browsers w \<and> contexts w' = contexts w
         \<and> (files w' p = None) = (files w p = None) \<and> (r = None) = (tf \<noteq> None)"
  using assms updateFiles_preserves [of other cwd orig new _ w p]
  by (auto simp: updateReferences_def split: option.splits)

lemma closeSession_effect:
  assumes "closeSession rm w = (r, w')"
  shows "files w' = files w \<and> (r = None) = (contextClose rm \<and> browserClose rm)
         \<and> (r = None \<longrightarrow> browsers w' = browsers w - 1 \<and> contexts w' = contexts w - 1)
         \<and> (r \<noteq> None \<longrightarrow> browsers w' = browsers w)"
  using assms by (auto simp: closeSession_def Let_def split: if_splits)

lemma replaceOriginal_effect:
  assumes run: "replaceOriginal rm cwd c w = (r, w')"
    and there: "files w (path c) \<noteq> None"
  shows "(files w' (path c) = None) = (r = None)
         \<and> (r = None) = (textFiles rm \<noteq> None \<and> contextClose rm \<and> browserClose rm
                           \<and> unlinkDenied rm (path c) = None)
         \<and> (textFiles rm \<noteq> None \<and> contextClose rm \<and> browserClose rm \<longrightarrow>
               r = unlinkDenied rm (path c)
               \<and> browsers w' = browsers w - 1 \<and> contexts w' = contexts w - 1)
         \<and> (\<not> (textFiles rm \<noteq> None \<and> contextClose rm \<and> browserClose rm) \<longrightarrow>
               browsers w' = browsers w)"
proof -
  obtain r1 w1 where u: "updateReferences (otherPatterns rm) (textFiles rm) cwd (name c)
                           (toAvifName (name c)) w = (r1, w1)"
    by (cases "updateReferences (otherPatterns rm) (textFiles rm) cwd (name c)
                 (toAvifName (name c)) w")
  note p1 = updateReferences_preserves [OF u, of "path c"]
  show ?thesis
  proof (cases r1)
    case (Some e)
    then show ?thesis using run u p1 there by (auto simp: replaceOriginal_def)
  next
    case None
    obtain r2 w2 where cl: "closeSession rm w1 = (r2, w2)" by (cases "closeSession rm w1")
    note p2 = closeSession_effect [OF cl]
    show ?thesis
    proof (cases r2)
      case (Some e)
      then show ?thesis
        using run u None cl p1 p2 there by (auto simp: replaceOriginal_def)
    next
      case None2: None
      have ex: "files w2 (path c) \<noteq> None" using p1 p2 there by simp
      then obtain x where x: "files w2 (path c) = Some x" by blast
      show ?thesis
      proof (cases "unlinkDenied rm (path c)")
        case (Some e)
        have "replaceOriginal rm cwd c w = (Some e, w2)"
          using u None cl None2 x Some by (simp add: replaceOriginal_def unlink_def)
        with run have "r = Some e" "w' = w2" by simp_all
        then show ?thesis using Some p1 p2 x None None2 by auto
      next
        case None3: None
        have "replaceOriginal rm cwd c w = (None, w2\<lparr>files := (files w2)(path c := None)\<rparr>)"
          using u None cl None2 x None3 by (simp add: replaceOriginal_def unlink_def)
        with run have "r = None" "w' = w2\<lparr>files := (files w2)(path c := None)\<rparr>" by simp_all
        then show ?thesis using None3 p1 p2 None None2 by auto
      qed
    qed
  qed
qed

lemma gateDecision_Some:
  assumes "gateDecision rm c w = Some d"
  obtains w1 fs2 a s where "openSession rm w = (None, w1)"
    and "produceArtifact rm c (files w1) = (None, fs2)"
    and "stat (avifPath c) fs2 = Inr a" and "stat (path c) fs2 = Inr s"
    and "d = outcomeGate a s"
  using assms
  by (auto simp: gateDecision_def split: prod.splits option.splits sum.splits)

lemma convert_KeepOriginal:
  assumes g: "gateDecision rm c w = Some KeepOriginal"
    and run: "convert rm cwd c w = (r, w')"
  shows "(\<forall>p. p \<noteq> avifPath c \<longrightarrow> files w' p = files w p)
         \<and> (unlinkDenied rm (avifPath c) = None \<longrightarrow>
               files w' (avifPath c) = None
               \<and> unlink (unlinkDenied rm) (avifPath c) (files w') = Inl ENOENT
               \<and> (r = None) = (contextClose rm \<and> browserClose rm))
         \<and> (\<forall>e. unlinkDenied rm (avifPath c) = Some e \<longrightarrow>
               r = Some e \<and> files w' (avifPath c) \<noteq> None)
         \<and> (r = None \<longrightarrow> browsers w' = browsers w \<and> contexts w' = contexts w)
         \<and> (r \<noteq> None \<longrightarrow> browsers w' = Suc (browsers w))"
proof -
  from g obtain w1 fs2 a s where o: "openSession rm w = (None, w1)"
    and pa: "produceArtifact rm c (files w1) = (None, fs2)"
    and sa: "stat (avifPath c) fs2 = Inr a" and ss: "stat (path c) fs2 = Inr s"
    and d: "KeepOriginal = outcomeGate a s"
    by (rule gateDecision_Some)
  have ex: "fs2 (avifPath c) \<noteq> None" using pa by (rule produceArtifact_exists)
  then obtain f where f: "fs2 (avifPath c) = Some f" by blast
  have other2: "fs2 p = files w p" if "p \<noteq> avifPath c" for p
    using produceArtifact_other [OF pa that] openSession_effect(1) [OF o] by simp
  note oe = openSession_effect(2) [OF o]
  show ?thesis
  proof (cases "unlinkDenied rm (avifPath c)")
    case (Some e)
    have "convert rm cwd c w = (Some e, w1\<lparr>files := fs2\<rparr>)"
      using o pa sa ss d [symmetric] f Some by (simp add: convert_def unlink_def)
    with run have "r = Some e" "w' = w1\<lparr>files := fs2\<rparr>" by simp_all
    then show ?thesis using Some ex other2 oe by simp
  next
    case None
    obtain r0 w0 where cl: "closeSession rm (w1\<lparr>files := fs2(avifPath c := None)\<rparr>) = (r0, w0)"
      by (cases "closeSession rm (w1\<lparr>files := fs2(avifPath c := None)\<rparr>)")
    have "convert rm cwd c w = (r0, w0)"
      using o pa sa ss d [symmetric] f None cl by (simp add: convert_def unlink_def)
    with run have eq: "r0 = r" "w0 = w'" by simp_all
    have fw: "files w' = fs2(avifPath c := None)"
      using closeSession_effect [OF cl] eq by simp
    show ?thesis
      using None fw other2 closeSession_effect [OF cl] eq oe
      by (auto simp: unlink_def)
  qed
qed

lemma convert_before_gate:
  assumes "gateDecision rm c w = None" and "convert rm cwd c w = (r, w')"
  shows "(avifPath c \<noteq> path c \<longrightarrow> files w' (path c) = files w (path c)) \<and> r \<noteq> None
         \<and> (launch rm \<longrightarrow> browsers w' = Suc (browsers w))
         \<and> (\<not> launch rm \<longrightarrow> browsers w' = browsers w)"
proof -
  obtain r0 w1 where o: "openSession rm w = (r0, w1)" by (cases "openSession rm w")
  note oe = openSession_effect [OF o]
  show ?thesis
  proof (cases r0)
    case (Some e)
    then show ?thesis using assms o oe by (auto simp: convert_def)
  next
    case None
    obtain r1 fs2 where pa: "produceArtifact rm c (files w1) = (r1, fs2)"
      by (cases "produceArtifact rm c (files w1)")
    have keep: "avifPath c \<noteq> path c \<longrightarrow> fs2 (path c) = files w (path c)"
      using produceArtifact_other [OF pa, of "path c"] oe(1) by simp
    have l: "launch rm" using o None by (simp add: openSession_launch)
    show ?thesis
      using assms(1,2) o None pa keep oe(2) l
      by (auto simp: convert_def gateDecision_def Let_def split: option.splits sum.splits)
  qed
qed

lemma convert_KeepArtifact:
  assumes g: "gateDecision rm c w = Some KeepArtifact"
    and run: "convert rm cwd c w = (r, w')"
  shows "(files w' (path c) = None) = (r = None)
         \<and> (r = None) = (textFiles rm \<noteq> None \<and> contextClose rm \<and> browserClose rm
                           \<and> unlinkDenied rm (path c) = None)
         \<and> (textFiles rm \<noteq> None \<and> contextClose rm \<and> browserClose rm \<longrightarrow>
               r = unlinkDenied rm (path c)
               \<and> browsers w' = browsers w \<and> contexts w' = contexts w)
         \<and> (\<not> (textFiles rm \<noteq> None \<and> contextClose rm \<and> browserClose rm) \<longrightarrow>
               browsers w' = Suc (browsers w))"
proof -
  from g obtain w1 fs2 a s where o: "openSession rm w = (None, w1)"
    and pa: "produceArtifact rm c (files w1) = (None, fs2)"
    and sa: "stat (avifPath c) fs2 = Inr a" and ss: "stat (path c) fs2 = Inr s"
    and d: "KeepArtifact = outcomeGate a s"
    by (rule gateDecision_Some)
  have rep: "replaceOriginal rm cwd c (w1\<lparr>files := fs2\<rparr>) = (r, w')"
    using run o pa sa ss d [symmetric] by (simp add: convert_def)
  have there: "files (w1\<lparr>files := fs2\<rparr>) (path c) \<noteq> None"
    using ss by (auto simp: stat_def split: option.splits)
  show ?thesis
    using replaceOriginal_effect [OF rep there] openSession_effect(2) [OF o] by auto
qed

lemma run_accepted:
  "summary (convert (tools ''avif'') ''/proj'' logo project)
     = (None, [None, Some ''avif'', Some ''<img src=logo.avif>''], 0, 0)"
  by code_simp

lemma run_rejected:
  "summary (convert (tools (replicate 31 (CHR ''z''))) ''/proj'' logo project)
     = (None, [Some (svg_open ''100'' @ ''<image/></svg>''), None,
               Some ''<img src=logo.svg>''], 0, 0)"
  by code_simp

lemma run_rejected_busy:
  "summary (convert ((tools (replicate 31 (CHR ''z'')))\<lparr>unlinkDenied := busy ''/proj/logo.avif''\<rparr>)
              ''/proj'' logo project)
     = (Some EBUSY, [Some (svg_open ''100'' @ ''<image/></svg>''),
                     Some (replicate 31 (CHR ''z'')), Some ''<img src=logo.svg>''], 1, 1)"
  by code_simp

lemma run_accepted_busy:
  "summary (convert ((tools ''avif'')\<lparr>unlinkDenied := busy ''/proj/logo.svg''\<rparr>)
              ''/proj'' logo project)
     = (Some EBUSY, [Some (svg_open ''100'' @ ''<image/></svg>''), Some ''avif'',
                     Some ''<img src=logo.avif>''], 0, 0)"
  by code_simp

lemma gate_accepts: "gateDecision (tools ''avif'') logo project = Some KeepArtifact"
  by code_simp

lemma gate_rejects:
  "gateDecision (tools (replicate 31 (CHR ''z''))) logo project = Some KeepOriginal"
  by code_simp

lemma gate_rejects_busy:
  "gateDecision ((tools (replicate 31 (CHR ''z'')))\<lparr>unlinkDenied := busy ''/proj/logo.avif''\<rparr>)
     logo project = Some KeepOriginal"
  by code_simp

lemma gate_accepts_busy:
  "gateDecision ((tools ''avif'')\<lparr>unlinkDenied := busy ''/proj/logo.svg''\<rparr>) logo project
     = Some KeepArtifact"
  by code_simp

lemma run_B_accepted:
  "summary (convert_B (tools ''avif'') ''/proj'' logo project)
     = (None, [None, Some ''avif'', Some ''<img src=logo.avif>''], 0, 0)"
  by code_simp

lemma logo_paths: "avifPath logo \<noteq> path logo \<and> files project (path logo) \<noteq> None"
  by (simp add: avifPath_def logo_def project_def toAvifName_def path_join_def startsWith_def)

subsection \<open>The paths of a selected candidate\<close>

text \<open>
  The candidates that the selection builds satisfy what the lemmas on \<open>convert\<close> ask of
  a candidate: the original exists, and when its base name holds \<open>.svg\<close>, as every name
  does that the glob \<open>**/*.svg\<close> matches case-sensitively, the artifact's path differs
  from it.
\<close>

lemma startsWith_length:
  assumes "startsWith s pat"
  shows "length pat \<le> length s"
proof -
  from assms have "length (take (length pat) s) = length pat"
    by (simp only: startsWith_def)
  then show ?thesis by simp
qed

lemma String_replace_length:
  "String_includes s pat \<Longrightarrow>
     length (String_replace pat rep s) + length pat = length s + length rep"
proof (induction s)
  case Nil
  then show ?case by simp
next
  case (Cons c cs)
  show ?case
  proof (cases "startsWith (c # cs) pat")
    case True
    then show ?thesis using startsWith_length [OF True] by simp
  next
    case False
    then show ?thesis using Cons by simp
  qed
qed

lemma toAvifName_differs: "String_includes n ''.svg'' \<Longrightarrow> toAvifName n \<noteq> n"
  using String_replace_length [of n "''.svg''" "''.avif''"] by (auto simp: toAvifName_def)

lemma basename_join: "basename (path_join cwd f) = basename f"
proof -
  have "takeWhile (\<lambda>c. c \<noteq> CHR ''/'') (rev f @ CHR ''/'' # rev cwd)
          = takeWhile (\<lambda>c. c \<noteq> CHR ''/'') (rev f)"
    by (induction f rule: rev_induct) simp_all
  then show ?thesis by (simp add: basename_def path_join_def)
qed

lemma dirname_basename:
  assumes "CHR ''/'' \<in> set p"
  shows "path_join (dirname p) (basename p) = p"
proof -
  let ?P = "\<lambda>c. c \<noteq> CHR ''/''"
  define tw where "tw = takeWhile ?P (rev p)"
  define dw where "dw = dropWhile ?P (rev p)"
  have split: "rev p = tw @ dw" by (simp add: tw_def dw_def)
  have ne: "dw \<noteq> []" using assms by (simp add: dw_def dropWhile_eq_Nil_conv)
  then have "\<not> ?P (hd dw)" unfolding dw_def by (rule hd_dropWhile)
  with ne obtain rest where d: "dw = CHR ''/'' # rest" by (cases dw) auto
  have "rev (rev p) = rev (tw @ dw)" by (simp only: split)
  then have p: "p = rev rest @ CHR ''/'' # rev tw" by (simp add: d)
  have "path_join (dirname p) (basename p) = rev (drop 1 dw) @ ''/'' @ rev tw"
    by (simp only: path_join_def dirname_def basename_def tw_def dw_def)
  also have "\<dots> = rev rest @ CHR ''/'' # rev tw" by (simp add: d)
  finally show ?thesis using p by simp
qed

lemma selected_paths:
  assumes "analyze cwd fs file = Inr (Some c) \<or> analyze_B cwd fs file = Inr (Some c)"
  shows "path c = path_join (dir c) (name c) \<and> fs (path c) \<noteq> None
         \<and> (String_includes (basename file) ''.svg'' \<longrightarrow> avifPath c \<noteq> path c)"
proof -
  have c: "path c = path_join cwd file" "dir c = dirname (path_join cwd file)"
    "name c = basename file" and ex: "fs (path c) \<noteq> None"
    using assms
    by (auto simp: analyze_def analyze_B_def Let_def readFile_def
             split: sum.splits option.splits if_splits)
  have "CHR ''/'' \<in> set (path_join cwd file)" by (simp add: path_join_def)
  from dirname_basename [OF this] have p: "path c = path_join (dir c) (name c)"
    using c by (simp add: basename_join)
  have "avifPath c \<noteq> path c" if "String_includes (basename file) ''.svg''"
    using toAvifName_differs [OF that] c(3)
    by (subst p) (simp add: avifPath_def path_join_def)
  then show ?thesis using p ex by blast
qed

subsection \<open>C3: when the original is deleted\<close>

text \<open>
  C3, as amended. Let the artifact's path differ from the original's and the original
  exist. In the first revision the original is deleted if and only if the gate decides
  \<open>KeepArtifact\<close> and \<open>convert\<close> then returns without raising; after that decision it
  returns without raising exactly when the glob of the rewrite step, \<open>context.close()\<close>,
  \<open>browser.close()\<close> and the \<open>fs.unlink\<close> of line 121 itself all resolve, so the rewrite
  step alone does not settle it. In every other run the original is still there. The second
  revision has no gate: the original is deleted if and only if \<open>convert\<close> returns without
  raising, whatever the two sizes.
\<close>

theorem original_deleted_iff:
  assumes ne: "avifPath c \<noteq> path c" and there: "files w (path c) \<noteq> None"
  shows "(convert rm cwd c w = (r, w') \<longrightarrow>
            (files w' (path c) = None) = (gateDecision rm c w = Some KeepArtifact \<and> r = None)
            \<and> (gateDecision rm c w = Some KeepArtifact \<longrightarrow>
                 (r = None) = (textFiles rm \<noteq> None \<and> contextClose rm \<and> browserClose rm
                                \<and> unlinkDenied rm (path c) = None)))
         \<and> (convert_B rm cwd c w = (r, w') \<longrightarrow> (files w' (path c) = None) = (r = None))"
proof (intro conjI impI)
  assume run: "convert rm cwd c w = (r, w')"
  show "(files w' (path c) = None) = (gateDecision rm c w = Some KeepArtifact \<and> r = None)"
  proof (cases "gateDecision rm c w")
    case None
    then show ?thesis using convert_before_gate [OF None run] ne there by simp
  next
    case (Some d)
    show ?thesis
    proof (cases d)
      case KeepArtifact
      with Some have g: "gateDecision rm c w = Some KeepArtifact" by simp
      from convert_KeepArtifact [OF g run] g show ?thesis by simp
    next
      case KeepOriginal
      with Some have g: "gateDecision rm c w = Some KeepOriginal" by simp
      from convert_KeepOriginal [OF g run]
      have "files w' (path c) = files w (path c)" using ne by auto
      then show ?thesis using g there by simp
    qed
  qed
next
  assume run: "convert rm cwd c w = (r, w')" and g: "gateDecision rm c w = Some KeepArtifact"
  from convert_KeepArtifact [OF g run]
  show "(r = None) = (textFiles rm \<noteq> None \<and> contextClose rm \<and> browserClose rm
                        \<and> unlinkDenied rm (path c) = None)"
    by blast
next
  assume run: "convert_B rm cwd c w = (r, w')"
  obtain r0 w1 where o: "openSession rm w = (r0, w1)" by (cases "openSession rm w")
  note oe = openSession_effect [OF o]
  show "(files w' (path c) = None) = (r = None)"
  proof (cases r0)
    case (Some e)
    then show ?thesis using run o oe there by (auto simp: convert_B_def)
  next
    case None
    obtain r1 fs2 where pa: "produceArtifact rm c (files w1) = (r1, fs2)"
      by (cases "produceArtifact rm c (files w1)")
    have keep: "fs2 (path c) = files w (path c)"
      using produceArtifact_other [OF pa, of "path c"] ne oe(1) by simp
    show ?thesis
    proof (cases r1)
      case (Some e)
      then show ?thesis using run o None pa keep there by (auto simp: convert_B_def)
    next
      case None2: None
      have rep: "replaceOriginal rm cwd c (w1\<lparr>files := fs2\<rparr>) = (r, w')"
        using run o None pa None2 by (simp add: convert_B_def)
      have "files (w1\<lparr>files := fs2\<rparr>) (path c) \<noteq> None" using keep there by simp
      from replaceOriginal_effect [OF rep this] show ?thesis by simp
    qed
  qed
qed

theorem original_deleted_iff_witness:
  "avifPath logo \<noteq> path logo \<and> files project (path logo) \<noteq> None
   \<and> (\<exists>w'. convert (tools ''avif'') ''/proj'' logo project = (None, w')
          \<and> files w' (path logo) = None
          \<and> gateDecision (tools ''avif'') logo project = Some KeepArtifact
          \<and> unlinkDenied (tools ''avif'') (path logo) = None)
   \<and> (\<exists>w'. convert_B (tools ''avif'') ''/proj'' logo project = (None, w')
          \<and> files w' (path logo) = None)"
proof -
  obtain r w' where run: "convert (tools ''avif'') ''/proj'' logo project = (r, w')"
    by (cases "convert (tools ''avif'') ''/proj'' logo project")
  with run_accepted have r: "r = None" by (simp add: summary_def)
  obtain r2 w2 where run2: "convert_B (tools ''avif'') ''/proj'' logo project = (r2, w2)"
    by (cases "convert_B (tools ''avif'') ''/proj'' logo project")
  with run_B_accepted have r2: "r2 = None" by (simp add: summary_def)
  from logo_paths have ne: "avifPath logo \<noteq> path logo"
    and there: "files project (path logo) \<noteq> None" by simp_all
  from original_deleted_iff [OF ne there, of "tools ''avif''" "''/proj''" None w']
    run r gate_accepts
  have 1: "files w' (path logo) = None \<and> unlinkDenied (tools ''avif'') (path logo) = None"
    by simp
  from original_deleted_iff [OF ne there, of "tools ''avif''" "''/proj''" None w2] run2 r2
  have 2: "files w2 (path logo) = None" by simp
  from 1 2 show ?thesis using run r run2 r2 gate_accepts ne there by blast
qed

text \<open>
  The claim as stated fails in both directions. In the first revision, when
  \<open>context.close()\<close> raises after the gate has decided \<open>KeepArtifact\<close> and the references
  have been rewritten, the original is not deleted. In the second revision an artifact as
  large as the original, for which the comparison decides \<open>KeepOriginal\<close>, still replaces
  it.
\<close>

theorem original_deletion_counterexample:
  "gateDecision ((tools ''avif'')\<lparr>contextClose := False\<rparr>) logo project = Some KeepArtifact
   \<and> summary (convert ((tools ''avif'')\<lparr>contextClose := False\<rparr>) ''/proj'' logo project)
       = (Some CloseError, [Some (svg_open ''100'' @ ''<image/></svg>''), Some ''avif'',
                            Some ''<img src=logo.avif>''], 1, 1)
   \<and> outcomeGate (length (replicate 31 (CHR ''z''))) (length (svg_open ''100'' @ ''<image/></svg>''))
       = KeepOriginal
   \<and> summary (convert_B (tools (replicate 31 (CHR ''z''))) ''/proj'' logo project)
       = (None, [None, Some (replicate 31 (CHR ''z'')), Some ''<img src=logo.avif>''], 0, 0)"
  by code_simp

subsection \<open>C7: the rejected artifact is removed\<close>

text \<open>
  C7, as amended. Whenever the gate decides \<open>KeepOriginal\<close>, \<open>convert\<close> unlinks the
  artifact at once and changes no other file. When the operating system lets the unlink
  happen, the artifact does not exist afterwards; when it refuses, the artifact stays, the
  error leaves \<open>convert\<close> and the browser is still open. The cleanup is not idempotent: a
  second \<open>fs.unlink\<close> of the removed artifact rejects with ENOENT.
\<close>

theorem artifact_removed_on_KeepOriginal:
  assumes "gateDecision rm c w = Some KeepOriginal" and "convert rm cwd c w = (r, w')"
  shows "(\<forall>p. p \<noteq> avifPath c \<longrightarrow> files w' p = files w p)
         \<and> (unlinkDenied rm (avifPath c) = None \<longrightarrow>
               files w' (avifPath c) = None
               \<and> unlink (unlinkDenied rm) (avifPath c) (files w') = Inl ENOENT)
         \<and> (\<forall>e. unlinkDenied rm (avifPath c) = Some e \<longrightarrow>
               r = Some e \<and> files w' (avifPath c) \<noteq> None
               \<and> browsers w' = Suc (browsers w))"
  using convert_KeepOriginal [OF assms] by auto

theorem artifact_removed_on_KeepOriginal_witness:
  "gateDecision (tools (replicate 31 (CHR ''z''))) logo project = Some KeepOriginal
   \<and> unlinkDenied (tools (replicate 31 (CHR ''z''))) (avifPath logo) = None
   \<and> (\<exists>r w'. convert (tools (replicate 31 (CHR ''z''))) ''/proj'' logo project = (r, w')
          \<and> files w' (avifPath logo) = None
          \<and> files w' (path logo) = files project (path logo)
          \<and> unlink (unlinkDenied (tools (replicate 31 (CHR ''z'')))) (avifPath logo) (files w')
              = Inl ENOENT)
   \<and> gateDecision ((tools (replicate 31 (CHR ''z'')))\<lparr>unlinkDenied := busy ''/proj/logo.avif''\<rparr>)
       logo project = Some KeepOriginal
   \<and> unlinkDenied ((tools (replicate 31 (CHR ''z'')))\<lparr>unlinkDenied := busy ''/proj/logo.avif''\<rparr>)
       (avifPath logo) = Some EBUSY
   \<and> (\<exists>w'. convert ((tools (replicate 31 (CHR ''z'')))\<lparr>unlinkDenied := busy ''/proj/logo.avif''\<rparr>)
              ''/proj'' logo project = (Some EBUSY, w')
          \<and> files w' (avifPath logo) \<noteq> None
          \<and> browsers w' = Suc (browsers project))"
proof -
  let ?free = "tools (replicate 31 (CHR ''z''))"
  let ?held = "(tools (replicate 31 (CHR ''z'')))\<lparr>unlinkDenied := busy ''/proj/logo.avif''\<rparr>"
  obtain r w' where run: "convert ?free ''/proj'' logo project = (r, w')"
    by (cases "convert ?free ''/proj'' logo project")
  obtain r2 w2 where run2: "convert ?held ''/proj'' logo project = (r2, w2)"
    by (cases "convert ?held ''/proj'' logo project")
  have free: "unlinkDenied ?free (avifPath logo) = None"
    by (simp add: tools_def)
  have held: "unlinkDenied ?held (avifPath logo) = Some EBUSY"
    by (simp add: busy_def avifPath_def logo_def toAvifName_def path_join_def startsWith_def)
  have ne: "path logo \<noteq> avifPath logo" using logo_paths by auto
  from artifact_removed_on_KeepOriginal [OF gate_rejects run] free ne
  have 1: "files w' (avifPath logo) = None
           \<and> files w' (path logo) = files project (path logo)
           \<and> unlink (unlinkDenied ?free) (avifPath logo) (files w') = Inl ENOENT"
    by blast
  from artifact_removed_on_KeepOriginal [OF gate_rejects_busy run2] held
  have 2: "r2 = Some EBUSY \<and> files w2 (avifPath logo) \<noteq> None
           \<and> browsers w2 = Suc (browsers project)"
    by blast
  from 1 2 show ?thesis using gate_rejects gate_rejects_busy free held run run2 by blast
qed

text \<open>
  The claim as stated fails on its second half: after the run that rejects the artifact,
  unlinking it once more raises.
\<close>

theorem second_unlink_raises:
  "summary (convert (tools (replicate 31 (CHR ''z''))) ''/proj'' logo project)
     = (None, [Some (svg_open ''100'' @ ''<image/></svg>''), None,
               Some ''<img src=logo.svg>''], 0, 0)
   \<and> (case convert (tools (replicate 31 (CHR ''z''))) ''/proj'' logo project of
        (r, w) \<Rightarrow> map_sum id (\<lambda>fs. ())
                    (unlink (unlinkDenied (tools (replicate 31 (CHR ''z''))))
                       ''/proj/logo.avif'' (files w)))
       = Inl ENOENT"
  by code_simp

subsection \<open>C8: the browser is closed when \<open>convert\<close> returns\<close>

text \<open>
  C8, as amended. The browser and its context are closed on both paths on which
  \<open>convert\<close> returns: the early return after the gate rejects the artifact, and the end of
  the function. When \<open>convert\<close> raises after the launch, the browser it launched is still
  open, with one exception: when the gate has accepted the artifact and the glob and both
  closes have resolved, the error is that of the final \<open>fs.unlink\<close> of line 121, which
  comes after the closes, and the browser and the context are closed.
\<close>

theorem session_closed_on_return:
  assumes run: "convert rm cwd c w = (r, w')"
  shows "(r = None \<longrightarrow> browsers w' = browsers w \<and> contexts w' = contexts w)
         \<and> (r \<noteq> None \<and> launch rm \<longrightarrow>
               (if gateDecision rm c w = Some KeepArtifact
                   \<and> textFiles rm \<noteq> None \<and> contextClose rm \<and> browserClose rm
                then r = unlinkDenied rm (path c)
                     \<and> browsers w' = browsers w \<and> contexts w' = contexts w
                else browsers w' = Suc (browsers w)))"
proof (cases "gateDecision rm c w")
  case None
  then show ?thesis using convert_before_gate [OF None run] by auto
next
  case (Some d)
  show ?thesis
  proof (cases d)
    case KeepArtifact
    with Some have g: "gateDecision rm c w = Some KeepArtifact" by simp
    from convert_KeepArtifact [OF g run] g show ?thesis by auto
  next
    case KeepOriginal
    with Some have g: "gateDecision rm c w = Some KeepOriginal" by simp
    from convert_KeepOriginal [OF g run] g show ?thesis by auto
  qed
qed

theorem session_closed_on_return_witness:
  "(\<exists>w'. convert (tools ''avif'') ''/proj'' logo project = (None, w')
          \<and> browsers w' = browsers project \<and> contexts w' = contexts project)
   \<and> launch ((tools ''avif'')\<lparr>unlinkDenied := busy ''/proj/logo.svg''\<rparr>)
   \<and> (\<exists>w'. convert ((tools ''avif'')\<lparr>unlinkDenied := busy ''/proj/logo.svg''\<rparr>)
              ''/proj'' logo project = (Some EBUSY, w')
          \<and> browsers w' = browsers project \<and> contexts w' = contexts project)"
proof -
  let ?held = "(tools ''avif'')\<lparr>unlinkDenied := busy ''/proj/logo.svg''\<rparr>"
  obtain r w' where run: "convert (tools ''avif'') ''/proj'' logo project = (r, w')"
    by (cases "convert (tools ''avif'') ''/proj'' logo project")
  with run_accepted have r: "r = None" by (simp add: summary_def)
  obtain r2 w2 where run2: "convert ?held ''/proj'' logo project = (r2, w2)"
    by (cases "convert ?held ''/proj'' logo project")
  with run_accepted_busy have r2: "r2 = Some EBUSY" by (simp add: summary_def)
  have ok: "launch ?held" "textFiles ?held \<noteq> None" "contextClose ?held" "browserClose ?held"
    by (simp_all add: tools_def)
  from session_closed_on_return [OF run] r
  have 1: "browsers w' = browsers project \<and> contexts w' = contexts project" by simp
  from session_closed_on_return [OF run2] r2 ok gate_accepts_busy
  have 2: "browsers w2 = browsers project \<and> contexts w2 = contexts project" by simp
  from 1 2 show ?thesis using run r run2 r2 ok(1) by blast
qed

text \<open>
  The claim as stated fails when a step of the session raises: here the first web tool
  does not answer, and the browser and the context are still open afterwards.
\<close>

theorem session_left_open_on_raise:
  "browsers project = 0 \<and> contexts project = 0
   \<and> summary (convert ((tools ''avif'')\<lparr>pixelied := (\<lambda>svg w. None)\<rparr>) ''/proj'' logo project)
       = (Some SessionError, [Some (svg_open ''100'' @ ''<image/></svg>''), None,
                              Some ''<img src=logo.svg>''], 1, 1)"
  by code_simp

end
